theory Spec2Isabelle
  imports Complex_Main "HOL-Library.Multiset"
begin

section \<open>Data model\<close>

text \<open>
  The ledger components work on the records of \<open>types/index.ts\<close>. Amounts are
  JavaScript numbers, that is, IEEE 754 doubles; a finite double is modelled as the
  rational number it denotes, and the arithmetic on doubles is in the next section.
  Timestamps (\<open>createdAt\<close>)
  are the millisecond values that \<open>getTime()\<close> returns. Field names are the
  source's, except where a name is taken: \<open>id\<close> and \<open>type\<close> of a transaction are
  \<open>txId\<close> and \<open>txType\<close>, \<open>id\<close> and \<open>clientId\<close> of a client are \<open>cId\<close> and
  \<open>cClientId\<close>, and the fields of a bet that a transaction also has carry the prefix
  \<open>bet\<close>.
\<close>

datatype TransactionType = Credit | Debit

datatype Role = Admin | Client

record Transaction =
  txId :: string
  clientId :: string
  txType :: TransactionType
  amount :: rat
  balanceAfter :: rat
  description :: string
  createdAt :: int
  isReversed :: bool

text \<open>
  The declarations of \<open>GameType\<close>, \<open>BettingCondition\<close>, \<open>PrizeRate\<close> and
  \<open>PositionalPrizeRates\<close> are in \<open>types/index.ts\<close>. The code singles out
  \<open>GameType.Positional\<close>; every other member is a named game. A \<open>PrizeRate\<close> object
  is read at the lower-cased condition (\<open>conditionKey\<close>), so it is a partial table
  from the condition to a percentage; \<open>prizeRates\<close> is read at the game type, and
  at \<open>POSITIONAL\<close> by the digit count.
\<close>

datatype GameType = Positional | OtherGame string

datatype BettingCondition = First | Second

type_synonym PrizeRate = "BettingCondition \<Rightarrow> rat option"

record PrizeRates =
  gameRates :: "GameType \<Rightarrow> PrizeRate option"
  POSITIONAL :: "(nat \<Rightarrow> PrizeRate option) option"

record ClientRec =
  cId :: string
  cClientId :: string
  username :: string
  role :: Role
  wallet :: rat
  prizeRates :: "PrizeRates option"

record Bet =
  betId :: string
  betClientId :: string
  betDrawId :: string
  gameType :: GameType
  condition :: BettingCondition
  number :: string
  stake :: rat

record Draw =
  drawId :: string
  status :: string
  winningNumbers :: "string list option"

section \<open>Double arithmetic\<close>

text \<open>
  A JavaScript \<open>+\<close>, \<open>-\<close>, \<open>*\<close> or \<open>/\<close> on numbers returns the exact result
  rounded to the nearest double, ties to the even significand. \<open>roundDouble\<close> scales
  its argument by a power of two until the significand has 53 bits (the exponent stays
  within the range of normal and subnormal doubles), rounds to an integer and scales
  back. Only finite values are modelled: no NaN, no infinity (a result beyond the
  largest double is left unrounded), and \<open>-0\<close> is 0.
\<close>

definition pow2 :: "int \<Rightarrow> rat" where
  "pow2 k = (if 0 \<le> k then 2 ^ nat k else 1 / 2 ^ nat (- k))"

function scaleUp :: "rat \<Rightarrow> int \<Rightarrow> rat \<times> int" where
  "scaleUp y k =
     (if 9007199254740992 \<le> \<bar>y\<bar> \<and> k < 971 then scaleUp (y / 2) (k + 1) else (y, k))"
  by pat_completeness auto
termination
  by (relation "measure (\<lambda>(y, k). nat (971 - k))") auto

function scaleDown :: "rat \<Rightarrow> int \<Rightarrow> rat \<times> int" where
  "scaleDown y k =
     (if \<bar>y\<bar> < 4503599627370496 \<and> - 1074 < k then scaleDown (y * 2) (k - 1) else (y, k))"
  by pat_completeness auto
termination
  by (relation "measure (\<lambda>(y, k). nat (k + 1074))") auto

definition roundHalfEven :: "rat \<Rightarrow> int" where
  "roundHalfEven y =
     (let f = \<lfloor>y\<rfloor>; r = y - of_int f
      in if r < 1 / 2 then f
         else if 1 / 2 < r then f + 1
         else if even f then f else f + 1)"

definition roundDouble :: "rat \<Rightarrow> rat" where
  "roundDouble x =
     (if x = 0 then 0
      else (let up = scaleUp x 0;
                dn = scaleDown (fst up) (snd up)
            in of_int (roundHalfEven (fst dn)) * pow2 (snd dn)))"

definition dadd :: "rat \<Rightarrow> rat \<Rightarrow> rat" where
  "dadd a b = roundDouble (a + b)"

definition dsub :: "rat \<Rightarrow> rat \<Rightarrow> rat" where
  "dsub a b = roundDouble (a - b)"

definition dmul :: "rat \<Rightarrow> rat \<Rightarrow> rat" where
  "dmul a b = roundDouble (a * b)"

definition ddiv :: "rat \<Rightarrow> rat \<Rightarrow> rat" where
  "ddiv a b = roundDouble (a / b)"

text \<open>A rational that is a double: rounding leaves it as it is.\<close>

definition isDouble :: "rat \<Rightarrow> bool" where
  "isDouble x = (roundDouble x = x)"

text \<open>
  No addition rounds when the numbers \<open>as\<close> are added one after the other to \<open>s\<close>:
  every partial sum is a double.
\<close>

fun exactFold :: "rat \<Rightarrow> rat list \<Rightarrow> bool" where
  "exactFold s [] = True"
| "exactFold s (a # as) = (isDouble (s + a) \<and> exactFold (s + a) as)"

record DateRange =
  rangeStart :: int
  rangeEnd :: int

text \<open>
  \<open>getDateRange\<close> reads the clock and the local calendar: \<open>now\<close>, the local midnight
  of today, and the local midnights six and twenty-nine days earlier. These four
  instants are the inputs of the model.
\<close>

record Clock =
  now :: int
  today :: int
  last7 :: int
  last30 :: int

definition getDateRange :: "Clock \<Rightarrow> string \<Rightarrow> DateRange option" where
  "getDateRange clk flt =
     (if flt = ''today'' then Some \<lparr>rangeStart = today clk, rangeEnd = now clk + 1\<rparr>
      else if flt = ''last7'' then Some \<lparr>rangeStart = last7 clk, rangeEnd = now clk + 1\<rparr>
      else if flt = ''last30'' then Some \<lparr>rangeStart = last30 clk, rangeEnd = now clk + 1\<rparr>
      else None)"

definition ITEMS_PER_PAGE :: nat where
  "ITEMS_PER_PAGE = 25"

text \<open>\<open>Math.ceil(n / ITEMS_PER_PAGE)\<close> on a list length.\<close>

definition pageCount :: "nat \<Rightarrow> nat" where
  "pageCount n = (n + (ITEMS_PER_PAGE - 1)) div ITEMS_PER_PAGE"

text \<open>
  \<open>xs.slice(startIndex, startIndex + ITEMS_PER_PAGE)\<close> with
  \<open>startIndex = (currentPage - 1) * ITEMS_PER_PAGE\<close>. Page 0 gives a negative start and
  the end index 0, which is the empty slice.
\<close>

definition paginate :: "nat \<Rightarrow> 'a list \<Rightarrow> 'a list" where
  "paginate currentPage xs =
     (if currentPage = 0 then []
      else take ITEMS_PER_PAGE (drop ((currentPage - 1) * ITEMS_PER_PAGE) xs))"

section \<open>Client ledger, forward replay (first \<open>FinancialLedger\<close>)\<close>

text \<open>
  \<open>Array.prototype.sort\<close> is stable, and so is \<open>sort_key\<close> (insertion sort): with
  the comparator \<open>a - b\<close> on \<open>createdAt\<close> the result is the list sorted by that key,
  equal keys in their original order.
\<close>

definition allClientTxs :: "Transaction list \<Rightarrow> string \<Rightarrow> Transaction list" where
  "allClientTxs transactions cid =
     sort_key createdAt (filter (\<lambda>t. clientId t = cid) transactions)"

definition lastTxBeforePeriod :: "Transaction list \<Rightarrow> DateRange \<Rightarrow> Transaction option" where
  "lastTxBeforePeriod txs rng = find (\<lambda>tx. createdAt tx < rangeStart rng) (rev txs)"

definition periodOpeningBalance :: "Transaction list \<Rightarrow> DateRange option \<Rightarrow> rat" where
  "periodOpeningBalance txs rng =
     (case rng of
        None \<Rightarrow> 0
      | Some r \<Rightarrow> (case lastTxBeforePeriod txs r of None \<Rightarrow> 0 | Some tx \<Rightarrow> balanceAfter tx))"

definition transactionsInPeriod :: "Transaction list \<Rightarrow> DateRange option \<Rightarrow> Transaction list" where
  "transactionsInPeriod txs rng =
     (case rng of
        None \<Rightarrow> txs
      | Some r \<Rightarrow> filter (\<lambda>tx. rangeStart r \<le> createdAt tx \<and> createdAt tx < rangeEnd r) txs)"

text \<open>
  One step of the replay, the body of the \<open>map\<close> callback on the running balance,
  first with the sum taken exactly (\<open>applyTx\<close>), then as the program computes it, in
  doubles (\<open>applyTxD\<close>). The exact functions serve where rounding plays no part; the
  functions with the suffix \<open>D\<close> are the program's arithmetic.
\<close>

definition applyTx :: "rat \<Rightarrow> Transaction \<Rightarrow> rat" where
  "applyTx rb tx =
     (let amountEffect = (if isReversed tx then 0 else amount tx)
      in if txType tx = Credit then rb + amountEffect else rb - amountEffect)"

record LedgerRow =
  rowTx :: Transaction
  runningBalance :: rat

fun transactionsWithRunningBalance :: "rat \<Rightarrow> Transaction list \<Rightarrow> LedgerRow list" where
  "transactionsWithRunningBalance rb [] = []"
| "transactionsWithRunningBalance rb (tx # txs) =
     \<lparr>rowTx = tx, runningBalance = applyTx rb tx\<rparr>
       # transactionsWithRunningBalance (applyTx rb tx) txs"

definition periodClosingBalance :: "rat \<Rightarrow> LedgerRow list \<Rightarrow> rat" where
  "periodClosingBalance opening rows =
     (if length rows > 0 then runningBalance (rows ! (length rows - 1)) else opening)"

definition totalCredit :: "Transaction list \<Rightarrow> rat" where
  "totalCredit txs =
     foldl (\<lambda>sum tx. sum + amount tx) 0
       (filter (\<lambda>tx. txType tx = Credit \<and> \<not> isReversed tx) txs)"

definition totalDebit :: "Transaction list \<Rightarrow> rat" where
  "totalDebit txs =
     foldl (\<lambda>sum tx. sum + amount tx) 0
       (filter (\<lambda>tx. txType tx = Debit \<and> \<not> isReversed tx) txs)"

record LedgerView =
  ledgerRows :: "LedgerRow list"
  paginatedTransactions :: "LedgerRow list"
  totalPages :: nat
  summaryTotalCredit :: rat
  summaryTotalDebit :: rat
  openingBalance :: rat
  closingBalance :: rat

text \<open>
  The \<open>useMemo\<close> body of the first \<open>FinancialLedger\<close>. \<open>ledgerRows\<close> is
  \<open>transactionsWithRunningBalance\<close> before it is reversed for display and paginated.
\<close>

definition clientLedgerIn :: "Transaction list \<Rightarrow> string \<Rightarrow> DateRange option \<Rightarrow> nat \<Rightarrow> LedgerView" where
  "clientLedgerIn transactions cid rng currentPage =
     (let txs = allClientTxs transactions cid;
          opening = periodOpeningBalance txs rng;
          inPeriod = transactionsInPeriod txs rng;
          rows = transactionsWithRunningBalance opening inPeriod;
          finalSortedTransactions = rev rows
      in \<lparr>ledgerRows = rows,
          paginatedTransactions = paginate currentPage finalSortedTransactions,
          totalPages = pageCount (length finalSortedTransactions),
          summaryTotalCredit = totalCredit inPeriod,
          summaryTotalDebit = totalDebit inPeriod,
          openingBalance = opening,
          closingBalance = periodClosingBalance opening rows\<rparr>)"

definition clientLedger :: "Clock \<Rightarrow> Transaction list \<Rightarrow> string \<Rightarrow> string \<Rightarrow> nat \<Rightarrow> LedgerView" where
  "clientLedger clk transactions cid dateFilter currentPage =
     clientLedgerIn transactions cid (getDateRange clk dateFilter) currentPage"

text \<open>The forward client ledger in doubles.\<close>

definition applyTxD :: "rat \<Rightarrow> Transaction \<Rightarrow> rat" where
  "applyTxD rb tx =
     (let amountEffect = (if isReversed tx then 0 else amount tx)
      in if txType tx = Credit then dadd rb amountEffect else dsub rb amountEffect)"

fun transactionsWithRunningBalanceD :: "rat \<Rightarrow> Transaction list \<Rightarrow> LedgerRow list" where
  "transactionsWithRunningBalanceD rb [] = []"
| "transactionsWithRunningBalanceD rb (tx # txs) =
     \<lparr>rowTx = tx, runningBalance = applyTxD rb tx\<rparr>
       # transactionsWithRunningBalanceD (applyTxD rb tx) txs"





text \<open>
  \<open>client\<close>: the logged-in client when it is the requested one, else the first
  entry of \<open>clients\<close> with the requested id.
\<close>

definition findClient :: "ClientRec option \<Rightarrow> ClientRec list \<Rightarrow> string \<Rightarrow> ClientRec option" where
  "findClient currentClient clients cid =
     (case currentClient of
        None \<Rightarrow> find (\<lambda>c. cId c = cid) clients
      | Some cur \<Rightarrow>
          if role cur = Client \<and> cId cur = cid then Some cur
          else find (\<lambda>c. cId c = cid) clients)"

section \<open>Client ledger, backward from the wallet (second \<open>FinancialLedger\<close>)\<close>

text \<open>
  \<open>filteredTransactions\<close>: the client's transactions newest first (a stable sort on
  descending \<open>createdAt\<close>), restricted to the period when there is one.
\<close>

definition filteredTransactions :: "Transaction list \<Rightarrow> string \<Rightarrow> DateRange option \<Rightarrow> Transaction list" where
  "filteredTransactions transactions cid rng =
     (let clientTxs = sort_key (\<lambda>t. - createdAt t) (filter (\<lambda>t. clientId t = cid) transactions)
      in case rng of
           None \<Rightarrow> clientTxs
         | Some r \<Rightarrow> filter (\<lambda>tx. rangeStart r \<le> createdAt tx \<and> createdAt tx < rangeEnd r) clientTxs)"

text \<open>The balance before a transaction: its effect on the running balance reversed.\<close>

definition undoTx :: "rat \<Rightarrow> Transaction \<Rightarrow> rat" where
  "undoTx rb tx =
     (let amt = (if isReversed tx then 0 else amount tx)
      in if txType tx = Credit then rb - amt else rb + amt)"

record CorrectedRow =
  corrTx :: Transaction
  correctedBalanceAfter :: rat

fun transactionsWithCorrectedBalance :: "rat \<Rightarrow> Transaction list \<Rightarrow> CorrectedRow list" where
  "transactionsWithCorrectedBalance rb [] = []"
| "transactionsWithCorrectedBalance rb (tx # txs) =
     \<lparr>corrTx = tx, correctedBalanceAfter = rb\<rparr>
       # transactionsWithCorrectedBalance (undoTx rb tx) txs"

record StatementView =
  detailedTransactions :: "CorrectedRow list"
  stPaginatedTransactions :: "CorrectedRow list"
  stTotalPages :: nat
  stTotalCredit :: rat
  stTotalDebit :: rat

text \<open>
  The second \<open>FinancialLedger\<close>: without a client (\<open>client?.wallet\<close> undefined) the
  view is empty; otherwise the rows start from the client's wallet.
\<close>

definition clientLedgerBackwardIn ::
  "ClientRec option \<Rightarrow> Transaction list \<Rightarrow> string \<Rightarrow> DateRange option \<Rightarrow> nat \<Rightarrow> StatementView" where
  "clientLedgerBackwardIn client transactions cid rng currentPage =
     (case client of
        None \<Rightarrow>
          \<lparr>detailedTransactions = [], stPaginatedTransactions = paginate currentPage [],
           stTotalPages = pageCount 0, stTotalCredit = 0, stTotalDebit = 0\<rparr>
      | Some c \<Rightarrow>
          (let filtered = filteredTransactions transactions cid rng;
               detailed = transactionsWithCorrectedBalance (wallet c) filtered
           in \<lparr>detailedTransactions = detailed,
               stPaginatedTransactions = paginate currentPage detailed,
               stTotalPages = pageCount (length detailed),
               stTotalCredit = totalCredit filtered,
               stTotalDebit = totalDebit filtered\<rparr>))"

definition clientLedgerBackward ::
  "Clock \<Rightarrow> ClientRec option \<Rightarrow> ClientRec list \<Rightarrow> Transaction list \<Rightarrow> string \<Rightarrow> string \<Rightarrow> nat \<Rightarrow> StatementView" where
  "clientLedgerBackward clk currentClient clients transactions cid dateFilter currentPage =
     clientLedgerBackwardIn (findClient currentClient clients cid) transactions cid
       (getDateRange clk dateFilter) currentPage"

section \<open>Admin mirror ledger (\<open>AdminWalletLedger\<close>)\<close>

text \<open>\<open>new Map(clients.map(c => [c.id, c]))\<close>: a later client with the same id wins.\<close>

definition clientMapOf :: "ClientRec list \<Rightarrow> string \<Rightarrow> ClientRec option" where
  "clientMapOf clients = map_of (rev (map (\<lambda>c. (cId c, c)) clients))"

record AdminMovement =
  originalTx :: Transaction
  movement :: rat
  mClient :: "ClientRec option"

definition adminMovement :: "(string \<Rightarrow> ClientRec option) \<Rightarrow> Transaction \<Rightarrow> AdminMovement" where
  "adminMovement clientMap tx =
     (let amt = (if isReversed tx then 0 else amount tx)
      in \<lparr>originalTx = tx,
          movement = (if txType tx = Credit then - amt else amt),
          mClient = clientMap (clientId tx)\<rparr>)"

text \<open>
  One turn of the loop over \<open>adminMovements\<close>; the state is
  \<open>(periodOpeningBalance, movementsInPeriod)\<close>.
\<close>

definition periodStep ::
  "DateRange option \<Rightarrow> rat \<times> AdminMovement list \<Rightarrow> AdminMovement \<Rightarrow> rat \<times> AdminMovement list" where
  "periodStep rng st m =
     (case rng of
        Some r \<Rightarrow>
          if rangeStart r \<le> createdAt (originalTx m) then (fst st, snd st @ [m])
          else (fst st + movement m, snd st)
      | None \<Rightarrow> (fst st, snd st @ [m]))"

record AdminEntry =
  entryId :: string
  entryCreatedAt :: int
  entryDescription :: string
  debit :: rat
  credit :: rat
  entryBalanceAfter :: rat
  clientInfo :: string

definition clientInfoOf :: "ClientRec option \<Rightarrow> string" where
  "clientInfoOf c =
     (case c of None \<Rightarrow> ''N/A'' | Some cl \<Rightarrow> username cl @ '' ('' @ cClientId cl @ '')'')"

fun ledgerEntriesFrom :: "rat \<Rightarrow> AdminMovement list \<Rightarrow> AdminEntry list" where
  "ledgerEntriesFrom rb [] = []"
| "ledgerEntriesFrom rb (m # ms) =
     \<lparr>entryId = txId (originalTx m),
      entryCreatedAt = createdAt (originalTx m),
      entryDescription = description (originalTx m),
      debit = (if movement m < 0 then - movement m else 0),
      credit = (if movement m > 0 then movement m else 0),
      entryBalanceAfter = rb + movement m,
      clientInfo = clientInfoOf (mClient m)\<rparr>
       # ledgerEntriesFrom (rb + movement m) ms"

definition adminClosingBalance :: "rat \<Rightarrow> AdminEntry list \<Rightarrow> rat" where
  "adminClosingBalance opening entries =
     (if length entries > 0 then entryBalanceAfter (entries ! (length entries - 1))
      else opening)"

record AdminView =
  ledgerEntriesInPeriod :: "AdminEntry list"
  paginatedEntries :: "AdminEntry list"
  aTotalPages :: nat
  aTotalCredit :: rat
  aTotalDebit :: rat
  aOpeningBalance :: rat
  aClosingBalance :: rat

text \<open>
  The \<open>useMemo\<close> body of \<open>AdminWalletLedger\<close>. Its only inputs are the client
  transactions, the clients and the logged-in administrator; \<open>currentClient?.wallet || 0\<close>
  is 0 without a logged-in user. \<open>ledgerEntriesInPeriod\<close> is the list before it is
  reversed for display.
\<close>

definition adminLedgerIn ::
  "Transaction list \<Rightarrow> ClientRec list \<Rightarrow> ClientRec option \<Rightarrow> DateRange option \<Rightarrow> nat \<Rightarrow> AdminView" where
  "adminLedgerIn transactions clients currentClient rng currentPage =
     (let sortedTxs = sort_key createdAt transactions;
          adminMovements = map (adminMovement (clientMapOf clients)) sortedTxs;
          totalNetMovement = foldl (\<lambda>sum m. sum + movement m) 0 adminMovements;
          adminWalletAtStartOfTime =
            (case currentClient of None \<Rightarrow> 0 | Some c \<Rightarrow> wallet c) - totalNetMovement;
          st = foldl (periodStep rng) (adminWalletAtStartOfTime, []) adminMovements;
          periodOpening = fst st;
          movementsInPeriod = snd st;
          entries = ledgerEntriesFrom periodOpening
            (filter (\<lambda>m. case rng of None \<Rightarrow> True
                          | Some r \<Rightarrow> createdAt (originalTx m) < rangeEnd r) movementsInPeriod);
          periodClosing = adminClosingBalance periodOpening entries;
          finalSortedEntries = rev entries
      in \<lparr>ledgerEntriesInPeriod = entries,
          paginatedEntries = paginate currentPage finalSortedEntries,
          aTotalPages = pageCount (length finalSortedEntries),
          aTotalCredit = foldl (\<lambda>sum entry. sum + credit entry) 0 entries,
          aTotalDebit = foldl (\<lambda>sum entry. sum + debit entry) 0 entries,
          aOpeningBalance = periodOpening,
          aClosingBalance = periodClosing\<rparr>)"

definition adminLedger ::
  "Clock \<Rightarrow> Transaction list \<Rightarrow> ClientRec list \<Rightarrow> ClientRec option \<Rightarrow> string \<Rightarrow> nat \<Rightarrow> AdminView" where
  "adminLedger clk transactions clients currentClient dateFilter currentPage =
     adminLedgerIn transactions clients currentClient (getDateRange clk dateFilter) currentPage"

text \<open>
  The data-model invariant of the wallet, in the words of the specification: the signed
  sum of the non-reversed transactions, Credits added and Debits subtracted.
\<close>

definition signedSum :: "Transaction list \<Rightarrow> rat" where
  "signedSum txs =
     sum_list (map amount (filter (\<lambda>t. txType t = Credit \<and> \<not> isReversed t) txs))
     - sum_list (map amount (filter (\<lambda>t. txType t = Debit \<and> \<not> isReversed t) txs))"


fun ledgerEntriesFromD :: "rat \<Rightarrow> AdminMovement list \<Rightarrow> AdminEntry list" where
  "ledgerEntriesFromD rb [] = []"
| "ledgerEntriesFromD rb (m # ms) =
     \<lparr>entryId = txId (originalTx m),
      entryCreatedAt = createdAt (originalTx m),
      entryDescription = description (originalTx m),
      debit = (if movement m < 0 then - movement m else 0),
      credit = (if movement m > 0 then movement m else 0),
      entryBalanceAfter = dadd rb (movement m),
      clientInfo = clientInfoOf (mClient m)\<rparr>
       # ledgerEntriesFromD (dadd rb (movement m)) ms"



section \<open>Winners report (\<open>WinnersReport\<close>)\<close>

text \<open>\<open>(bet.number.match(/\d/g) || []).length\<close>: the number of digit characters.\<close>

definition digitCount :: "string \<Rightarrow> nat" where
  "digitCount s = length (filter (\<lambda>c. c \<in> set ''0123456789'') s)"

text \<open>
  The rate of a winning bet, from \<open>let rate = 0\<close> to the test \<open>rate > 0\<close>. A table or
  field that is missing leaves the rate at 0 (in the positional branch an absent field
  makes the rate \<open>undefined\<close>, which fails \<open>rate > 0\<close> as 0 does).
\<close>

definition resolveRate :: "PrizeRates \<Rightarrow> Bet \<Rightarrow> rat" where
  "resolveRate rates bet =
     (if gameType bet = Positional then
        (case POSITIONAL rates of
           None \<Rightarrow> 0
         | Some positionalRates \<Rightarrow>
             (case positionalRates (digitCount (number bet)) of
                None \<Rightarrow> 0
              | Some pr \<Rightarrow> (case pr (condition bet) of None \<Rightarrow> 0 | Some r \<Rightarrow> r)))
      else
        (case gameRates rates (gameType bet) of
           None \<Rightarrow> 0
         | Some gamePrizeRates \<Rightarrow>
             (case gamePrizeRates (condition bet) of None \<Rightarrow> 0 | Some r \<Rightarrow> r)))"

record WinningBetDetail =
  wBet :: Bet
  wClient :: ClientRec
  prizeWon :: rat

record WinnersData =
  winners :: "WinningBetDetail list"
  totalPayout :: rat

text \<open>
  One turn of the loop over \<open>drawBets\<close>; the state is \<open>winningBets\<close> and
  \<open>totalPayout\<close>. \<open>isBetWinner\<close> is imported from \<open>utils/helpers.ts\<close> and is a
  parameter. The prize \<open>bet.stake * (rate / 100)\<close> and the running total are computed
  in doubles.
\<close>

definition winnersStep ::
  "(Bet \<Rightarrow> string list \<Rightarrow> bool) \<Rightarrow> (string \<Rightarrow> ClientRec option) \<Rightarrow> string list
     \<Rightarrow> WinnersData \<Rightarrow> Bet \<Rightarrow> WinnersData" where
  "winnersStep isBetWinner clientMap wn acc bet =
     (if isBetWinner bet wn then
        (case clientMap (betClientId bet) of
           None \<Rightarrow> acc
         | Some client \<Rightarrow>
             (case prizeRates client of
                None \<Rightarrow> acc
              | Some rates \<Rightarrow>
                  (let rate = resolveRate rates bet
                   in if rate > 0 then
                        (let prize = dmul (stake bet) (ddiv rate 100)
                         in \<lparr>winners = winners acc
                                @ [\<lparr>wBet = bet, wClient = client, prizeWon = prize\<rparr>],
                             totalPayout = dadd (totalPayout acc) prize\<rparr>)
                      else acc)))
      else acc)"

definition winnersData ::
  "(Bet \<Rightarrow> string list \<Rightarrow> bool) \<Rightarrow> (string \<Rightarrow> Bet list option) \<Rightarrow> ClientRec list
     \<Rightarrow> Draw option \<Rightarrow> WinnersData" where
  "winnersData isBetWinner betsByDraw clients draw =
     (case draw of
        None \<Rightarrow> \<lparr>winners = [], totalPayout = 0\<rparr>
      | Some d \<Rightarrow>
          if status d \<noteq> ''FINISHED'' then \<lparr>winners = [], totalPayout = 0\<rparr>
          else
            (case winningNumbers d of
               None \<Rightarrow> \<lparr>winners = [], totalPayout = 0\<rparr>
             | Some wn \<Rightarrow>
                 foldl (winnersStep isBetWinner (clientMapOf clients) wn)
                   \<lparr>winners = [], totalPayout = 0\<rparr>
                   (case betsByDraw (drawId d) of None \<Rightarrow> [] | Some bs \<Rightarrow> bs)))"

record GroupedWinner =
  gClient :: ClientRec
  totalWon :: rat
  gBets :: "(Bet \<times> rat) list"

text \<open>
  \<open>groups\<close> is a \<open>Map\<close> from client id to group; it keeps the keys in insertion
  order, so it is an association list with distinct keys. \<open>bumpGroup\<close> is
  \<open>groups.get(client.id)\<close> followed by the two updates of that group.
\<close>

fun bumpGroup ::
  "string \<Rightarrow> WinningBetDetail \<Rightarrow> (string \<times> GroupedWinner) list \<Rightarrow> (string \<times> GroupedWinner) list" where
  "bumpGroup key w [] = []"
| "bumpGroup key w (kg # rest) =
     (if fst kg = key then
        (fst kg, (snd kg)\<lparr>totalWon := dadd (totalWon (snd kg)) (prizeWon w),
                          gBets := gBets (snd kg) @ [(wBet w, prizeWon w)]\<rparr>) # rest
      else kg # bumpGroup key w rest)"

definition groupStep ::
  "(string \<times> GroupedWinner) list \<Rightarrow> WinningBetDetail \<Rightarrow> (string \<times> GroupedWinner) list" where
  "groupStep groups w =
     (let key = cId (wClient w);
          groups1 = (if map_of groups key = None
                     then groups @ [(key, \<lparr>gClient = wClient w, totalWon = 0, gBets = []\<rparr>)]
                     else groups)
      in bumpGroup key w groups1)"

text \<open>
  \<open>Array.from(groups.values()).sort((a, b) => b.totalWon - a.totalWon)\<close>: a stable
  sort on descending \<open>totalWon\<close>.
\<close>

definition groupedWinners :: "WinningBetDetail list \<Rightarrow> GroupedWinner list" where
  "groupedWinners ws = sort_key (\<lambda>g. - totalWon g) (map snd (foldl groupStep [] ws))"

text \<open>The three figures of the report header and the grouped list.\<close>

record WinnersReport =
  reportGroups :: "GroupedWinner list"
  shownTotalPayout :: rat
  shownWinningBets :: nat
  shownUniqueWinners :: nat

definition winnersReport ::
  "(Bet \<Rightarrow> string list \<Rightarrow> bool) \<Rightarrow> (string \<Rightarrow> Bet list option) \<Rightarrow> ClientRec list
     \<Rightarrow> Draw option \<Rightarrow> WinnersReport" where
  "winnersReport isBetWinner betsByDraw clients draw =
     (let wd = winnersData isBetWinner betsByDraw clients draw;
          grouped = groupedWinners (winners wd)
      in \<lparr>reportGroups = grouped,
          shownTotalPayout = totalPayout wd,
          shownWinningBets = length (winners wd),
          shownUniqueWinners = length grouped\<rparr>)"

text \<open>
  The payout percentage the loop resolves for a bet from its client's rate table: 0 when
  the client or the client's \<open>prizeRates\<close> is missing (the loop's \<open>continue\<close>).
\<close>

definition resolvedRate :: "(string \<Rightarrow> ClientRec option) \<Rightarrow> Bet \<Rightarrow> rat" where
  "resolvedRate clientMap bet =
     (case clientMap (betClientId bet) of
        None \<Rightarrow> 0
      | Some client \<Rightarrow>
          (case prizeRates client of None \<Rightarrow> 0 | Some rates \<Rightarrow> resolveRate rates bet))"

text \<open>A timestamp falls in the requested period: always, when the view is all-time.\<close>

definition inPeriod :: "DateRange option \<Rightarrow> Transaction \<Rightarrow> bool" where
  "inPeriod rng tx =
     (case rng of
        None \<Rightarrow> True
      | Some r \<Rightarrow> rangeStart r \<le> createdAt tx \<and> createdAt tx < rangeEnd r)"

text \<open>
  The opening balance of a period as the specification words it: from the current wallet,
  walking the client's transactions newest to oldest, the effect of every transaction at
  or after the period start is undone, a reversed entry counting zero.
\<close>

definition specOpeningBalance :: "rat \<Rightarrow> Transaction list \<Rightarrow> int \<Rightarrow> rat" where
  "specOpeningBalance currentWallet clientTxs periodStart =
     foldl undoTx currentWallet
       (filter (\<lambda>tx. periodStart \<le> createdAt tx) (sort_key (\<lambda>t. - createdAt t) clientTxs))"


section \<open>A worked ledger\<close>


definition clkEarly :: Clock where
  "clkEarly = \<lparr>now = 45, today = 28, last7 = 22, last30 = 0\<rparr>"

definition clkLate :: Clock where
  "clkLate = \<lparr>now = 100, today = 55, last7 = 49, last30 = 26\<rparr>"

definition mkTx ::
  "string \<Rightarrow> string \<Rightarrow> TransactionType \<Rightarrow> rat \<Rightarrow> rat \<Rightarrow> int \<Rightarrow> bool \<Rightarrow> Transaction" where
  "mkTx i c ty a b t r =
     \<lparr>txId = i, clientId = c, txType = ty, amount = a, balanceAfter = b,
      description = [], createdAt = t, isReversed = r\<rparr>"

definition scenarioTxs :: "Transaction list" where
  "scenarioTxs =
     [mkTx ''t5'' ''c1'' Credit 45 395 50 True,
      mkTx ''t2'' ''c1'' Debit 50 450 20 False,
      mkTx ''t1'' ''c1'' Credit 500 500 10 False,
      mkTx ''u1'' ''c2'' Credit 70 70 15 False,
      mkTx ''t3'' ''c1'' Debit 50 400 30 False,
      mkTx ''t4'' ''c1'' Debit 50 350 40 False,
      mkTx ''t6'' ''c1'' Credit 5 355 60 False]"

definition client1 :: ClientRec where
  "client1 = \<lparr>cId = ''c1'', cClientId = ''A001'', username = ''ann'', role = Client,
              wallet = 355, prizeRates = None\<rparr>"

text \<open>
  A finished draw with winning numbers 34 and 3-4. Ann has 90 percent on (Single, First)
  and positional rates for two digits; Bob has no rate table; Cy has 0 percent on
  (Single, First) and 50 percent on (Single, Second); one bet belongs to an unknown
  client. The stand-in for \<open>isBetWinner\<close> is membership in the winning numbers.
\<close>

definition mkBet ::
  "string \<Rightarrow> string \<Rightarrow> GameType \<Rightarrow> BettingCondition \<Rightarrow> string \<Rightarrow> rat \<Rightarrow> Bet" where
  "mkBet i c g cond num st =
     \<lparr>betId = i, betClientId = c, betDrawId = ''d1'', gameType = g, condition = cond,
      number = num, stake = st\<rparr>"

definition ratesAnn :: PrizeRates where
  "ratesAnn =
     \<lparr>gameRates = (\<lambda>g. if g = OtherGame ''Single''
                        then Some (\<lambda>c. if c = First then Some 90 else None) else None),
      POSITIONAL = Some (\<lambda>n. if n = 2
                        then Some (\<lambda>c. if c = First then Some 80 else Some 0) else None)\<rparr>"

definition ratesCy :: PrizeRates where
  "ratesCy =
     \<lparr>gameRates = (\<lambda>g. if g = OtherGame ''Single''
                        then Some (\<lambda>c. if c = First then Some 0 else Some 50) else None),
      POSITIONAL = None\<rparr>"

definition scenarioClients :: "ClientRec list" where
  "scenarioClients =
     [\<lparr>cId = ''c1'', cClientId = ''A001'', username = ''ann'', role = Client,
       wallet = 355, prizeRates = Some ratesAnn\<rparr>,
      \<lparr>cId = ''c2'', cClientId = ''A002'', username = ''bob'', role = Client,
       wallet = 70, prizeRates = None\<rparr>,
      \<lparr>cId = ''c3'', cClientId = ''A003'', username = ''cy'', role = Client,
       wallet = 0, prizeRates = Some ratesCy\<rparr>]"

definition scenarioBets :: "Bet list" where
  "scenarioBets =
     [mkBet ''b1'' ''c1'' (OtherGame ''Single'') First ''12'' 50,
      mkBet ''b2'' ''c1'' (OtherGame ''Single'') First ''34'' 50,
      mkBet ''b3'' ''c1'' (OtherGame ''Single'') First ''56'' 50,
      mkBet ''b4'' ''c2'' (OtherGame ''Single'') First ''34'' 20,
      mkBet ''b5'' ''c3'' (OtherGame ''Single'') First ''34'' 30,
      mkBet ''b6'' ''c1'' Positional First ''3-4'' 10,
      mkBet ''b7'' ''c3'' (OtherGame ''Single'') Second ''34'' 200,
      mkBet ''b8'' ''c9'' (OtherGame ''Single'') First ''34'' 10]"

definition sampleWinner :: "Bet \<Rightarrow> string list \<Rightarrow> bool" where
  "sampleWinner bet wn = (number bet \<in> set wn)"

definition scenarioDraw :: Draw where
  "scenarioDraw = \<lparr>drawId = ''d1'', status = ''FINISHED'', winningNumbers = Some [''34'', ''3-4'']\<rparr>"

definition scenarioBetsByDraw :: "string \<Rightarrow> Bet list option" where
  "scenarioBetsByDraw k = (if k = ''d1'' then Some scenarioBets else None)"

text \<open>
  The invariant of the grouping loop after the winners \<open>ws\<close>: the keys are distinct,
  they are the client ids of \<open>ws\<close>, and each group holds the winners of its client in
  order, with their prizes added in that order in doubles.
\<close>

definition groupsOk :: "WinningBetDetail list \<Rightarrow> (string \<times> GroupedWinner) list \<Rightarrow> bool" where
  "groupsOk ws gs \<longleftrightarrow>
     distinct (map fst gs)
     \<and> set (map fst gs) = (\<lambda>w. cId (wClient w)) ` set ws
     \<and> (\<forall>kg \<in> set gs.
          cId (gClient (snd kg)) = fst kg
          \<and> gBets (snd kg)
              = map (\<lambda>w. (wBet w, prizeWon w)) (filter (\<lambda>w. cId (wClient w) = fst kg) ws)
          \<and> totalWon (snd kg)
              = foldl dadd 0 (map prizeWon (filter (\<lambda>w. cId (wClient w) = fst kg) ws)))"

section \<open>Amounts that round\<close>

text \<open>The doubles nearest to 0.1, 0.2 and 0.01, which is what the literals denote.\<close>

definition tenth :: rat where
  "tenth = 3602879701896397 / 36028797018963968"


definition hundredth :: rat where
  "hundredth = 5764607523034235 / 576460752303423488"







text \<open>
  Rate tables of 10 and of 1 percent on (Single, First); a draw with one winning bet of
  stake 3 at 10 percent, and a draw with winning bets of stakes 1, 1 and 7 at 1 percent,
  the first and the third of the same client.
\<close>

definition ratesTen :: PrizeRates where
  "ratesTen =
     \<lparr>gameRates = (\<lambda>g. if g = OtherGame ''Single''
                        then Some (\<lambda>c. if c = First then Some 10 else None) else None),
      POSITIONAL = None\<rparr>"

definition ratesOne :: PrizeRates where
  "ratesOne =
     \<lparr>gameRates = (\<lambda>g. if g = OtherGame ''Single''
                        then Some (\<lambda>c. if c = First then Some 1 else None) else None),
      POSITIONAL = None\<rparr>"

definition roundingClients :: "ClientRec list" where
  "roundingClients =
     [\<lparr>cId = ''c1'', cClientId = ''A001'', username = ''ann'', role = Client,
       wallet = 0, prizeRates = Some ratesOne\<rparr>,
      \<lparr>cId = ''c2'', cClientId = ''A002'', username = ''bob'', role = Client,
       wallet = 0, prizeRates = Some ratesOne\<rparr>,
      \<lparr>cId = ''c4'', cClientId = ''A004'', username = ''dee'', role = Client,
       wallet = 0, prizeRates = Some ratesTen\<rparr>]"

definition tenPercentBets :: "string \<Rightarrow> Bet list option" where
  "tenPercentBets k =
     (if k = ''d1'' then Some [mkBet ''x0'' ''c4'' (OtherGame ''Single'') First ''34'' 3]
      else None)"

definition onePercentBets :: "string \<Rightarrow> Bet list option" where
  "onePercentBets k =
     (if k = ''d1''
      then Some [mkBet ''x1'' ''c1'' (OtherGame ''Single'') First ''34'' 1,
                 mkBet ''x2'' ''c2'' (OtherGame ''Single'') First ''34'' 1,
                 mkBet ''x3'' ''c1'' (OtherGame ''Single'') First ''34'' 7]
      else None)"


section \<open>Replay lemmas\<close>

lemma foldl_amount_sum:
  "foldl (\<lambda>sum tx. sum + amount tx) a txs = a + sum_list (map amount txs)"
  by (induction txs arbitrary: a) (simp_all add: add.assoc)

lemma totalCredit_sum:
  "totalCredit txs = sum_list (map amount (filter (\<lambda>tx. txType tx = Credit \<and> \<not> isReversed tx) txs))"
  by (simp add: totalCredit_def foldl_amount_sum)

lemma totalDebit_sum:
  "totalDebit txs = sum_list (map amount (filter (\<lambda>tx. txType tx = Debit \<and> \<not> isReversed tx) txs))"
  by (simp add: totalDebit_def foldl_amount_sum)

lemma length_rows [simp]:
  "length (transactionsWithRunningBalance rb txs) = length txs"
  by (induction txs arbitrary: rb) simp_all

lemma map_rowTx_rows [simp]:
  "map rowTx (transactionsWithRunningBalance rb txs) = txs"
  by (induction txs arbitrary: rb) simp_all





lemma signedSum_totals: "signedSum txs = totalCredit txs - totalDebit txs"
  by (simp add: signedSum_def totalCredit_sum totalDebit_sum)

lemma sum_list_filter_mset:
  "mset xs = mset ys \<Longrightarrow>
     sum_list (map amount (filter P xs)) = sum_list (map amount (filter P ys))"
proof -
  assume eq: "mset xs = mset ys"
  have "sum_list (map amount (filter P zs))
          = sum_mset (image_mset amount (filter_mset P (mset zs)))" for zs
    by (metis mset_filter mset_map sum_mset_sum_list)
  then show ?thesis using eq by simp
qed

lemma signedSum_mset: "mset xs = mset ys \<Longrightarrow> signedSum xs = signedSum ys"
  unfolding signedSum_def
  using sum_list_filter_mset [of xs ys] by simp

lemma signedSum_sort [simp]: "signedSum (sort_key k xs) = signedSum xs"
  by (rule signedSum_mset) simp


section \<open>Admin ledger lemmas\<close>

lemma sum_list_map_sort_key:
  fixes f :: "'a \<Rightarrow> 'b::comm_monoid_add"
  shows "sum_list (map f (sort_key k xs)) = sum_list (map f xs)"
proof -
  have "sum_list (map f zs) = sum_mset (image_mset f (mset zs))" for zs
    by (metis mset_map sum_mset_sum_list)
  then show ?thesis by simp
qed


lemma periodStep_foldl_None:
  "foldl (periodStep None) st ms = (fst st, snd st @ ms)"
  by (induction ms arbitrary: st) (simp_all add: periodStep_def)

lemma periodStep_foldl_Some:
  "foldl (periodStep (Some r)) st ms =
     (fst st + sum_list (map movement (filter (\<lambda>m. \<not> rangeStart r \<le> createdAt (originalTx m)) ms)),
      snd st @ filter (\<lambda>m. rangeStart r \<le> createdAt (originalTx m)) ms)"
  by (induction ms arbitrary: st) (simp_all add: periodStep_def add.assoc)

lemma length_entries [simp]: "length (ledgerEntriesFrom rb ms) = length ms"
  by (induction ms arbitrary: rb) simp_all

lemma entryId_entries:
  "map entryId (ledgerEntriesFrom rb ms) = map (\<lambda>m. txId (originalTx m)) ms"
  by (induction ms arbitrary: rb) simp_all




lemma originalTx_adminMovement [simp]: "originalTx (adminMovement cm tx) = tx"
  by (simp add: adminMovement_def Let_def)


lemma adminLedgerIn_entries:
  "ledgerEntriesInPeriod (adminLedgerIn transactions clients currentClient rng p)
     = ledgerEntriesFrom (aOpeningBalance (adminLedgerIn transactions clients currentClient rng p))
         (map (adminMovement (clientMapOf clients))
            (transactionsInPeriod (sort_key createdAt transactions) rng))"
proof (cases rng)
  case None
  then show ?thesis
    by (simp add: adminLedgerIn_def Let_def periodStep_foldl_None transactionsInPeriod_def)
next
  case (Some r)
  then show ?thesis
    by (simp add: adminLedgerIn_def Let_def periodStep_foldl_Some transactionsInPeriod_def
        filter_map comp_def)
qed



section \<open>Admin mirror ledger: the mirror rule\<close>


section \<open>Client ledger backward from the wallet\<close>

lemma hd_corrected:
  "txs \<noteq> [] \<Longrightarrow>
     hd (transactionsWithCorrectedBalance rb txs) = \<lparr>corrTx = hd txs, correctedBalanceAfter = rb\<rparr>"
  by (cases txs) simp_all

lemma length_corrected [simp]:
  "length (transactionsWithCorrectedBalance rb txs) = length txs"
  by (induction txs arbitrary: rb) simp_all

lemma map_corrTx_corrected [simp]:
  "map corrTx (transactionsWithCorrectedBalance rb txs) = txs"
  by (induction txs arbitrary: rb) simp_all

lemma filteredTransactions_eq:
  "filteredTransactions transactions cid rng
     = filter (inPeriod rng) (sort_key (\<lambda>t. - createdAt t) (filter (\<lambda>t. clientId t = cid) transactions))"
proof (cases rng)
  case None
  have "inPeriod None = (\<lambda>tx. True)" by (simp add: fun_eq_iff inPeriod_def)
  with None show ?thesis by (simp add: filteredTransactions_def Let_def)
next
  case (Some r)
  have "inPeriod (Some r) = (\<lambda>tx. rangeStart r \<le> createdAt tx \<and> createdAt tx < rangeEnd r)"
    by (simp add: fun_eq_iff inPeriod_def)
  with Some show ?thesis by (simp add: filteredTransactions_def Let_def)
qed

lemma set_filteredTransactions:
  "set (filteredTransactions transactions cid rng)
     = {tx \<in> set transactions. clientId tx = cid \<and> inPeriod rng tx}"
  by (auto simp: filteredTransactions_eq)

lemma sorted_filteredTransactions:
  "sorted (map (\<lambda>t. - createdAt t) (filteredTransactions transactions cid rng))"
  unfolding filteredTransactions_eq
  by (rule sorted_filter) (rule sorted_sort_key)

lemma hd_filtered_newest:
  assumes "tx \<in> set (filteredTransactions transactions cid rng)"
  shows "createdAt tx \<le> createdAt (hd (filteredTransactions transactions cid rng))"
proof -
  let ?xs = "filteredTransactions transactions cid rng"
  from assms obtain y ys where xs: "?xs = y # ys" by (cases ?xs) auto
  have "sorted (map (\<lambda>t. - createdAt t) (y # ys))"
    using sorted_filteredTransactions [of transactions cid rng] xs by simp
  then have "\<forall>z \<in> set ys. - createdAt y \<le> - createdAt z" by simp
  with assms xs show ?thesis by auto
qed

lemma hd_paginate_first: "xs \<noteq> [] \<Longrightarrow> hd (paginate 1 xs) = hd xs"
  by (cases xs) (simp_all add: paginate_def ITEMS_PER_PAGE_def)

text \<open>
  C10. In the client ledger that works backwards from the wallet, whenever the selected
  period holds a transaction of the client, the corrected balance of the first row (on
  the first page too) equals the client's current wallet, and that row is the newest
  transaction of the period. This holds for every filter and whatever transactions lie
  outside the period: a transaction newer than the period's end is not rolled back.
\<close>

theorem backward_ledger_newest_row_is_wallet:
  assumes "findClient currentClient clients cid = Some c"
    and "filteredTransactions transactions cid (getDateRange clk flt) \<noteq> []"
  shows "correctedBalanceAfter (hd (detailedTransactions
            (clientLedgerBackward clk currentClient clients transactions cid flt p))) = wallet c
       \<and> correctedBalanceAfter (hd (stPaginatedTransactions
            (clientLedgerBackward clk currentClient clients transactions cid flt 1))) = wallet c
       \<and> corrTx (hd (detailedTransactions
            (clientLedgerBackward clk currentClient clients transactions cid flt p)))
           \<in> {tx \<in> set transactions. clientId tx = cid \<and> inPeriod (getDateRange clk flt) tx}
       \<and> (\<forall>tx \<in> set transactions. clientId tx = cid \<and> inPeriod (getDateRange clk flt) tx \<longrightarrow>
             createdAt tx \<le> createdAt (corrTx (hd (detailedTransactions
               (clientLedgerBackward clk currentClient clients transactions cid flt p)))))"
proof -
  let ?f = "filteredTransactions transactions cid (getDateRange clk flt)"
  have d: "detailedTransactions (clientLedgerBackward clk currentClient clients transactions cid flt q)
             = transactionsWithCorrectedBalance (wallet c) ?f" for q
    using assms(1) by (simp add: clientLedgerBackward_def clientLedgerBackwardIn_def Let_def)
  have pg: "stPaginatedTransactions (clientLedgerBackward clk currentClient clients transactions cid flt 1)
             = paginate 1 (transactionsWithCorrectedBalance (wallet c) ?f)"
    using assms(1) by (simp add: clientLedgerBackward_def clientLedgerBackwardIn_def Let_def)
  have ne: "transactionsWithCorrectedBalance (wallet c) ?f \<noteq> []"
    using assms(2) by (cases ?f) simp_all
  have h: "hd (transactionsWithCorrectedBalance (wallet c) ?f)
             = \<lparr>corrTx = hd ?f, correctedBalanceAfter = wallet c\<rparr>"
    using assms(2) by (rule hd_corrected)
  have mem: "hd ?f \<in> set ?f" using assms(2) by simp
  have newest: "\<forall>tx \<in> set ?f. createdAt tx \<le> createdAt (hd ?f)"
    using hd_filtered_newest by blast
  have c1: "correctedBalanceAfter (hd (detailedTransactions
            (clientLedgerBackward clk currentClient clients transactions cid flt p))) = wallet c"
    by (simp add: d h)
  have c2: "correctedBalanceAfter (hd (stPaginatedTransactions
            (clientLedgerBackward clk currentClient clients transactions cid flt 1))) = wallet c"
    unfolding pg hd_paginate_first [OF ne] h by simp
  have c3: "corrTx (hd (detailedTransactions
            (clientLedgerBackward clk currentClient clients transactions cid flt p))) = hd ?f"
    by (simp add: d h)
  have c4: "hd ?f \<in> {tx \<in> set transactions. clientId tx = cid \<and> inPeriod (getDateRange clk flt) tx}"
    using mem by (simp only: set_filteredTransactions)
  have c5: "\<forall>tx \<in> set transactions. clientId tx = cid \<and> inPeriod (getDateRange clk flt) tx \<longrightarrow>
             createdAt tx \<le> createdAt (hd ?f)"
    using newest by (simp add: set_filteredTransactions)
  show ?thesis
    using c1 c2 c4 c5 by (simp only: c3)
qed

theorem backward_ledger_newest_row_is_wallet_witness:
  "findClient None [client1] ''c1'' = Some client1
   \<and> filteredTransactions scenarioTxs ''c1'' (getDateRange clkEarly ''today'') \<noteq> []
   \<and> map txId (filteredTransactions scenarioTxs ''c1'' (getDateRange clkEarly ''today''))
       = [''t4'', ''t3'']
   \<and> correctedBalanceAfter (hd (detailedTransactions
         (clientLedgerBackward clkEarly None [client1] scenarioTxs ''c1'' ''today'' 1))) = 355"
proof -
  have h1: "findClient None [client1] ''c1'' = Some client1"
    by (simp add: findClient_def client1_def)
  have h3: "map txId (filteredTransactions scenarioTxs ''c1'' (getDateRange clkEarly ''today''))
       = [''t4'', ''t3'']"
    by (simp add: filteredTransactions_def getDateRange_def clkEarly_def scenarioTxs_def mkTx_def Let_def)
  then have h2: "filteredTransactions scenarioTxs ''c1'' (getDateRange clkEarly ''today'') \<noteq> []"
    by auto
  from backward_ledger_newest_row_is_wallet [OF h1 h2, of 1] h1 h2 h3
  show ?thesis by (simp add: client1_def)
qed

section \<open>Ranged opening balance of the forward client ledger\<close>

text \<open>
  C2. The specification has the client ledger rebuild the opening balance of a bounded
  period backwards from the current wallet, never reading a stored balance-after value.
  The forward client ledger reads it. In the worked ledger the wallet is 355 and equals
  the signed sum of the client's transactions; for the period starting at 55 the rebuilt
  opening balance is 350, but the forward ledger opens at 395, the stored balance-after
  of the reversed prize, and closes at 400 instead of the wallet.
\<close>

theorem clientLedger_ranged_opening_is_snapshot:
  "wallet client1 = signedSum (filter (\<lambda>t. clientId t = ''c1'') scenarioTxs)
   \<and> getDateRange clkLate ''today'' = Some \<lparr>rangeStart = 55, rangeEnd = 101\<rparr>
   \<and> specOpeningBalance (wallet client1) (filter (\<lambda>t. clientId t = ''c1'') scenarioTxs) 55 = 350
   \<and> openingBalance (clientLedger clkLate scenarioTxs ''c1'' ''today'' 1) = 395
   \<and> closingBalance (clientLedger clkLate scenarioTxs ''c1'' ''today'' 1) = 400
   \<and> wallet client1 = 355"
proof -
  have a: "wallet client1 = signedSum (filter (\<lambda>t. clientId t = ''c1'') scenarioTxs)"
    by (simp add: signedSum_def scenarioTxs_def mkTx_def client1_def)
  have b: "getDateRange clkLate ''today'' = Some \<lparr>rangeStart = 55, rangeEnd = 101\<rparr>"
    by (simp add: getDateRange_def clkLate_def)
  have c: "specOpeningBalance (wallet client1) (filter (\<lambda>t. clientId t = ''c1'') scenarioTxs) 55 = 350"
    by (simp add: specOpeningBalance_def scenarioTxs_def mkTx_def client1_def undoTx_def)
  have d: "openingBalance (clientLedger clkLate scenarioTxs ''c1'' ''today'' 1) = 395"
    by (simp add: clientLedger_def clientLedgerIn_def b Let_def allClientTxs_def
        periodOpeningBalance_def lastTxBeforePeriod_def scenarioTxs_def mkTx_def)
  have e: "closingBalance (clientLedger clkLate scenarioTxs ''c1'' ''today'' 1) = 400"
    by (simp add: clientLedger_def clientLedgerIn_def b Let_def allClientTxs_def
        periodOpeningBalance_def lastTxBeforePeriod_def transactionsInPeriod_def
        periodClosingBalance_def applyTx_def scenarioTxs_def mkTx_def)
  have f: "wallet client1 = 355" by (simp add: client1_def)
  from a b c d e f show ?thesis by blast
qed

section \<open>Reversed transactions in the ledger views\<close>









lemma transactionsInPeriod_eq: "transactionsInPeriod txs rng = filter (inPeriod rng) txs"
proof (cases rng)
  case None
  have "inPeriod None = (\<lambda>tx. True)" by (simp add: fun_eq_iff inPeriod_def)
  with None show ?thesis by (simp add: transactionsInPeriod_def)
next
  case (Some r)
  have "inPeriod (Some r) = (\<lambda>tx. rangeStart r \<le> createdAt tx \<and> createdAt tx < rangeEnd r)"
    by (simp add: fun_eq_iff inPeriod_def)
  with Some show ?thesis by (simp add: transactionsInPeriod_def)
qed





lemma set_allClientTxs:
  "set (allClientTxs transactions cid) = {tx \<in> set transactions. clientId tx = cid}"
  by (auto simp: allClientTxs_def)

lemma clientLedger_rows:
  "ledgerRows (clientLedger clk transactions cid flt p)
     = transactionsWithRunningBalance (openingBalance (clientLedger clk transactions cid flt p))
         (filter (inPeriod (getDateRange clk flt)) (allClientTxs transactions cid))"
  by (simp add: clientLedger_def clientLedgerIn_def Let_def transactionsInPeriod_eq)

lemma clientLedger_rows_set:
  "set (map rowTx (ledgerRows (clientLedger clk transactions cid flt p)))
     = {tx \<in> set transactions. clientId tx = cid \<and> inPeriod (getDateRange clk flt) tx}"
  unfolding clientLedger_rows map_rowTx_rows by (auto simp: set_allClientTxs)




lemma adminLedger_entries:
  "ledgerEntriesInPeriod (adminLedger clk transactions clients currentClient flt p)
     = ledgerEntriesFrom (aOpeningBalance (adminLedger clk transactions clients currentClient flt p))
         (map (adminMovement (clientMapOf clients))
            (filter (inPeriod (getDateRange clk flt)) (sort_key createdAt transactions)))"
  unfolding adminLedger_def by (simp only: adminLedgerIn_entries transactionsInPeriod_eq)

lemma adminLedger_entry_ids:
  "map entryId (ledgerEntriesInPeriod (adminLedger clk transactions clients currentClient flt p))
     = map txId (filter (inPeriod (getDateRange clk flt)) (sort_key createdAt transactions))"
  unfolding adminLedger_entries entryId_entries by (simp add: comp_def)



lemma backward_rows:
  "findClient currentClient clients cid = Some c \<Longrightarrow>
     detailedTransactions (clientLedgerBackward clk currentClient clients transactions cid flt p)
       = transactionsWithCorrectedBalance (wallet c)
           (filteredTransactions transactions cid (getDateRange clk flt))"
  by (simp add: clientLedgerBackward_def clientLedgerBackwardIn_def Let_def)

lemma backward_rows_set:
  "findClient currentClient clients cid = Some c \<Longrightarrow>
     set (map corrTx (detailedTransactions
            (clientLedgerBackward clk currentClient clients transactions cid flt p)))
       = {tx \<in> set transactions. clientId tx = cid \<and> inPeriod (getDateRange clk flt) tx}"
  by (simp only: backward_rows map_corrTx_corrected set_filteredTransactions)


section \<open>Positional rates\<close>

lemma digitCount_card:
  "digitCount s = card {i. i < length s \<and> s ! i \<in> set ''0123456789''}"
  unfolding digitCount_def by (rule length_filter_conv_card)

text \<open>
  C6. For a bet of the positional game type the rate is read from the positional table
  at the digit count of the bet's number (the number of positions of the string that
  hold a digit character) and at the bet's condition. The table keyed by game type plays
  no part, and two positional bets with the same digit count and condition resolve to
  the same rate.
\<close>

theorem positional_rate_by_digit_count:
  assumes "gameType bet = Positional"
  shows "resolveRate rates bet
           = (case POSITIONAL rates of
                None \<Rightarrow> 0
              | Some positionalRates \<Rightarrow>
                  (case positionalRates (digitCount (number bet)) of
                     None \<Rightarrow> 0
                   | Some pr \<Rightarrow> (case pr (condition bet) of None \<Rightarrow> 0 | Some r \<Rightarrow> r)))
       \<and> digitCount (number bet)
           = card {i. i < length (number bet) \<and> number bet ! i \<in> set ''0123456789''}
       \<and> resolveRate (rates\<lparr>gameRates := otherTable\<rparr>) bet = resolveRate rates bet
       \<and> (gameType bet' = Positional \<and> digitCount (number bet') = digitCount (number bet)
            \<and> condition bet' = condition bet \<longrightarrow>
          resolveRate rates bet' = resolveRate rates bet)"
proof (intro conjI impI)
  show "resolveRate rates bet
           = (case POSITIONAL rates of
                None \<Rightarrow> 0
              | Some positionalRates \<Rightarrow>
                  (case positionalRates (digitCount (number bet)) of
                     None \<Rightarrow> 0
                   | Some pr \<Rightarrow> (case pr (condition bet) of None \<Rightarrow> 0 | Some r \<Rightarrow> r)))"
    using assms by (simp add: resolveRate_def)
  show "digitCount (number bet)
           = card {i. i < length (number bet) \<and> number bet ! i \<in> set ''0123456789''}"
    by (rule digitCount_card)
  show "resolveRate (rates\<lparr>gameRates := otherTable\<rparr>) bet = resolveRate rates bet"
    using assms by (simp add: resolveRate_def)
  show "resolveRate rates bet' = resolveRate rates bet"
    if "gameType bet' = Positional \<and> digitCount (number bet') = digitCount (number bet)
            \<and> condition bet' = condition bet"
    using that assms by (simp add: resolveRate_def split: option.splits)
qed

theorem positional_rate_by_digit_count_witness:
  "gameType (mkBet ''b6'' ''c1'' Positional First ''3-4'' 10) = Positional
   \<and> digitCount (number (mkBet ''b6'' ''c1'' Positional First ''3-4'' 10)) = 2
   \<and> resolveRate ratesAnn (mkBet ''b6'' ''c1'' Positional First ''3-4'' 10) = 80
   \<and> resolveRate ratesAnn (mkBet ''b9'' ''c1'' Positional First ''07'' 10) = 80"
proof -
  let ?b6 = "mkBet ''b6'' ''c1'' Positional First ''3-4'' 10"
  let ?b9 = "mkBet ''b9'' ''c1'' Positional First ''07'' 10"
  have h: "gameType ?b6 = Positional" by (simp add: mkBet_def)
  note T = positional_rate_by_digit_count [OF h, of ratesAnn undefined ?b9]
  have d6: "digitCount (number ?b6) = 2" by (simp add: digitCount_def mkBet_def)
  have d9: "digitCount (number ?b9) = 2" by (simp add: digitCount_def mkBet_def)
  from T have "resolveRate ratesAnn ?b6
      = (case POSITIONAL ratesAnn of
           None \<Rightarrow> 0
         | Some positionalRates \<Rightarrow>
             (case positionalRates (digitCount (number ?b6)) of
                None \<Rightarrow> 0
              | Some pr \<Rightarrow> (case pr (condition ?b6) of None \<Rightarrow> 0 | Some r \<Rightarrow> r)))"
    by blast
  then have r6: "resolveRate ratesAnn ?b6 = 80"
    unfolding d6 by (simp add: ratesAnn_def mkBet_def)
  from T have "gameType ?b9 = Positional \<and> digitCount (number ?b9) = digitCount (number ?b6)
        \<and> condition ?b9 = condition ?b6 \<longrightarrow>
      resolveRate ratesAnn ?b9 = resolveRate ratesAnn ?b6"
    by blast
  then have r9: "resolveRate ratesAnn ?b9 = 80"
    unfolding d6 d9 r6 by (simp add: mkBet_def)
  from h d6 r6 r9 show ?thesis by blast
qed

section \<open>Rounding lemmas\<close>

declare scaleUp.simps [simp del] scaleDown.simps [simp del]

lemma pow2_pred: "pow2 (k - 1) * 2 = pow2 k"
proof (cases "1 \<le> k")
  case True
  then have "nat k = Suc (nat (k - 1))" by simp
  with True show ?thesis by (simp add: pow2_def)
next
  case False
  then have "nat (- (k - 1)) = Suc (nat (- k))" by simp
  with False show ?thesis by (simp add: pow2_def)
qed

lemma pow2_0 [simp]: "pow2 0 = 1"
  by (simp add: pow2_def)

lemma roundDouble_0 [simp]: "roundDouble 0 = 0"
  by (simp add: roundDouble_def)

lemma roundHalfEven_int: "y \<in> \<int> \<Longrightarrow> of_int (roundHalfEven y) = y"
  by (auto simp: roundHalfEven_def Let_def elim!: Ints_cases)

lemma scaleUp_small: "\<bar>y\<bar> < 9007199254740992 \<Longrightarrow> scaleUp y k = (y, k)"
  by (simp add: scaleUp.simps)

lemma scaleDown_int:
  "y \<in> \<int> \<Longrightarrow>
     of_int (roundHalfEven (fst (scaleDown y k))) * pow2 (snd (scaleDown y k)) = y * pow2 k"
proof (induction y k rule: scaleDown.induct)
  case (1 y k)
  show ?case
  proof (cases "\<bar>y\<bar> < 4503599627370496 \<and> - 1074 < k")
    case True
    have "y * 2 \<in> \<int>" using "1.prems" by simp
    have "y * 2 * pow2 (k - 1) = y * pow2 k"
      using pow2_pred [of k] by (simp add: mult.assoc mult.commute)
    with "1.IH" [OF True \<open>y * 2 \<in> \<int>\<close>] True show ?thesis
      by (subst (1 2) scaleDown.simps) simp
  next
    case False
    then show ?thesis
      using "1.prems" by (subst (1 2) scaleDown.simps) (auto simp: roundHalfEven_int)
  qed
qed

lemma roundDouble_int: "x \<in> \<int> \<Longrightarrow> \<bar>x\<bar> < 9007199254740992 \<Longrightarrow> roundDouble x = x"
  using scaleDown_int [of x 0]
  by (simp add: roundDouble_def Let_def scaleUp_small)

lemma isDouble_int: "x \<in> \<int> \<Longrightarrow> \<bar>x\<bar> < 9007199254740992 \<Longrightarrow> isDouble x"
  by (simp add: isDouble_def roundDouble_int)

lemma scaleDown_steps:
  "4503599627370496 \<le> \<bar>y * 2 ^ j\<bar> \<Longrightarrow> \<bar>y * 2 ^ j\<bar> < 9007199254740992
     \<Longrightarrow> - 1074 \<le> k - int j \<Longrightarrow> scaleDown y k = (y * 2 ^ j, k - int j)"
proof (induction j arbitrary: y k)
  case 0
  then show ?case by (subst scaleDown.simps) simp
next
  case (Suc j)
  have "\<bar>y\<bar> * 2 ^ Suc j < 9007199254740992"
    using Suc.prems(2) by (simp add: abs_mult)
  moreover have "\<bar>y\<bar> * 2 \<le> \<bar>y\<bar> * 2 ^ Suc j"
    by (rule mult_left_mono) simp_all
  ultimately have "\<bar>y\<bar> * 2 < 9007199254740992"
    by linarith
  then have small: "\<bar>y\<bar> < 4503599627370496" by simp
  have k: "- 1074 < k" using Suc.prems(3) by simp
  have "scaleDown (y * 2) (k - 1) = ((y * 2) * 2 ^ j, (k - 1) - int j)"
    using Suc.prems by (intro Suc.IH) (simp_all add: mult.assoc)
  with small k show ?case
    by (subst scaleDown.simps) (simp add: mult.assoc)
qed

lemma roundHalfEven_near:
  assumes "of_int m - 1 / 2 < y" and "y < of_int m + 1 / 2"
  shows "roundHalfEven y = m"
proof -
  have "\<lfloor>y\<rfloor> = m \<or> \<lfloor>y\<rfloor> = m - 1" using assms by linarith
  then show ?thesis
  proof
    assume f: "\<lfloor>y\<rfloor> = m"
    then have "y - of_int \<lfloor>y\<rfloor> < 1 / 2" using assms by simp
    with f show ?thesis by (simp add: roundHalfEven_def Let_def)
  next
    assume f: "\<lfloor>y\<rfloor> = m - 1"
    then have "1 / 2 < y - of_int \<lfloor>y\<rfloor>" using assms by simp
    with f show ?thesis by (simp add: roundHalfEven_def Let_def)
  qed
qed

lemma roundHalfEven_tie:
  assumes "y = of_int f + 1 / 2"
  shows "roundHalfEven y = (if even f then f else f + 1)"
proof -
  have "\<lfloor>y\<rfloor> = f" using assms by linarith
  with assms show ?thesis by (simp add: roundHalfEven_def Let_def)
qed

lemma roundDouble_scaled:
  assumes "4503599627370496 \<le> \<bar>x * 2 ^ j\<bar>" and "\<bar>x * 2 ^ j\<bar> < 9007199254740992"
    and "\<bar>x\<bar> < 9007199254740992" and "j \<le> 1074"
  shows "roundDouble x = of_int (roundHalfEven (x * 2 ^ j)) / 2 ^ j"
proof -
  have x: "x \<noteq> 0" using assms(1) by auto
  have "scaleDown x 0 = (x * 2 ^ j, 0 - int j)"
    using assms(1,2,4) by (intro scaleDown_steps) simp_all
  then show ?thesis
    using x assms(3)
    by (cases "j = 0") (simp_all add: roundDouble_def Let_def scaleUp_small pow2_def)
qed

lemma roundDouble_near:
  assumes "4503599627370496 \<le> \<bar>x * 2 ^ j\<bar>" and "\<bar>x * 2 ^ j\<bar> < 9007199254740992"
    and "\<bar>x\<bar> < 9007199254740992" and "j \<le> 1074"
    and "of_int m - 1 / 2 < x * 2 ^ j" and "x * 2 ^ j < of_int m + 1 / 2"
  shows "roundDouble x = of_int m / 2 ^ j"
  using roundDouble_scaled [OF assms(1-4)] roundHalfEven_near [OF assms(5,6)] by simp

lemma roundDouble_tie:
  assumes "4503599627370496 \<le> \<bar>x * 2 ^ j\<bar>" and "\<bar>x * 2 ^ j\<bar> < 9007199254740992"
    and "\<bar>x\<bar> < 9007199254740992" and "j \<le> 1074"
    and "x * 2 ^ j = of_int f + 1 / 2"
  shows "roundDouble x = of_int (if even f then f else f + 1) / 2 ^ j"
  using roundDouble_scaled [OF assms(1-4)] roundHalfEven_tie [OF assms(5)] by simp

lemma foldl_dadd_exact: "exactFold s as \<Longrightarrow> foldl dadd s as = s + sum_list as"
  by (induction as arbitrary: s) (simp_all add: dadd_def isDouble_def add.assoc)

section \<open>The doubles written 0.1 and 0.2\<close>

lemma tenth_double: "roundDouble (1 / 10) = tenth"
  unfolding tenth_def
  by (subst roundDouble_near [where j = 56 and m = 7205759403792794]) simp_all








section \<open>The forward client ledger in doubles\<close>



lemma length_rowsD [simp]:
  "length (transactionsWithRunningBalanceD rb txs) = length txs"
  by (induction txs arbitrary: rb) simp_all

lemma map_rowTx_rowsD [simp]:
  "map rowTx (transactionsWithRunningBalanceD rb txs) = txs"
  by (induction txs arbitrary: rb) simp_all














lemma dadd_0_sum:
  "dadd 0 (1351079888211149 / 4503599627370496) = 1351079888211149 / 4503599627370496"
  unfolding dadd_def
  by (subst roundDouble_near [where j = 54 and m = 5404319552844596]) simp_all


section \<open>The admin ledger in doubles\<close>



lemma length_entriesD [simp]: "length (ledgerEntriesFromD rb ms) = length ms"
  by (induction ms arbitrary: rb) simp_all

lemma entriesD_exact:
  "exactFold rb (map movement ms) \<Longrightarrow> ledgerEntriesFromD rb ms = ledgerEntriesFrom rb ms"
  by (induction ms arbitrary: rb) (simp_all add: dadd_def isDouble_def)









section \<open>Winners of a draw\<close>

lemma winnersStep_char:
  "winnersStep W cm wn acc bet =
     (if W bet wn \<and> resolvedRate cm bet > 0
      then \<lparr>winners = winners acc
               @ [\<lparr>wBet = bet, wClient = the (cm (betClientId bet)),
                   prizeWon = dmul (stake bet) (ddiv (resolvedRate cm bet) 100)\<rparr>],
            totalPayout = dadd (totalPayout acc)
               (dmul (stake bet) (ddiv (resolvedRate cm bet) 100))\<rparr>
      else acc)"
  by (simp add: winnersStep_def resolvedRate_def Let_def split: option.splits)

lemma foldl_winnersStep:
  "foldl (winnersStep W cm wn) acc bets =
     \<lparr>winners = winners acc
        @ map (\<lambda>b. \<lparr>wBet = b, wClient = the (cm (betClientId b)),
                     prizeWon = dmul (stake b) (ddiv (resolvedRate cm b) 100)\<rparr>)
            (filter (\<lambda>b. W b wn \<and> resolvedRate cm b > 0) bets),
      totalPayout = foldl dadd (totalPayout acc)
        (map (\<lambda>b. dmul (stake b) (ddiv (resolvedRate cm b) 100))
            (filter (\<lambda>b. W b wn \<and> resolvedRate cm b > 0) bets))\<rparr>"
proof (induction bets arbitrary: acc)
  case Nil
  then show ?case by simp
next
  case (Cons b bets)
  show ?case
    by (simp only: foldl_Cons Cons.IH) (simp add: winnersStep_char)
qed

lemma resolvedRate_pos_client:
  "resolvedRate cm b > 0 \<Longrightarrow> \<exists>c. cm (betClientId b) = Some c"
  by (simp add: resolvedRate_def split: option.splits)

lemma winnersData_finished:
  assumes "status d = ''FINISHED''" and "winningNumbers d = Some wn"
  shows "winnersData W betsByDraw clients (Some d) =
     \<lparr>winners = map (\<lambda>b. \<lparr>wBet = b, wClient = the (clientMapOf clients (betClientId b)),
                     prizeWon = dmul (stake b) (ddiv (resolvedRate (clientMapOf clients) b) 100)\<rparr>)
            (filter (\<lambda>b. W b wn \<and> resolvedRate (clientMapOf clients) b > 0)
               (case betsByDraw (drawId d) of None \<Rightarrow> [] | Some bs \<Rightarrow> bs)),
      totalPayout = foldl dadd 0
            (map (\<lambda>b. dmul (stake b) (ddiv (resolvedRate (clientMapOf clients) b) 100))
            (filter (\<lambda>b. W b wn \<and> resolvedRate (clientMapOf clients) b > 0)
               (case betsByDraw (drawId d) of None \<Rightarrow> [] | Some bs \<Rightarrow> bs)))\<rparr>"
  using assms by (simp add: winnersData_def foldl_winnersStep)

lemma winnersData_totalPayout:
  "totalPayout (winnersData W betsByDraw clients draw)
     = foldl dadd 0 (map prizeWon (winners (winnersData W betsByDraw clients draw)))"
proof (cases draw)
  case None
  then show ?thesis by (simp add: winnersData_def)
next
  case (Some d)
  show ?thesis
  proof (cases "status d = ''FINISHED'' \<and> winningNumbers d \<noteq> None")
    case True
    then obtain wn where "winningNumbers d = Some wn" by auto
    with True Some show ?thesis
      by (simp add: winnersData_finished comp_def)
  next
    case False
    with Some show ?thesis by (auto simp: winnersData_def split: option.splits)
  qed
qed

lemma prize_exact:
  assumes "isDouble (r / 100)" and "isDouble (s * (r / 100))"
  shows "dmul s (ddiv r 100) = s * r / 100"
proof -
  from assms have a: "roundDouble (r / 100) = r / 100"
    and b: "roundDouble (s * (r / 100)) = s * (r / 100)"
    by (simp_all only: isDouble_def)
  show ?thesis unfolding dmul_def ddiv_def a b by simp
qed

text \<open>
  C5. The winners of a finished draw are its winning bets whose resolved rate is
  positive, in the order of the bets, each with the prize \<open>stake * (rate / 100)\<close> as
  the program computes it: the quotient rounded to a double, then the product rounded to
  a double. The client of a winner is the one the bet names. When neither operation
  rounds, the prize equals stake times rate divided by 100. A winning bet whose resolved
  rate is missing or not positive (no client, no rate table, no entry, or an entry of 0)
  is not among the winners, and the model of the loop has no error branch. The total
  payout is the sum of the prizes, added in that order in doubles. Without the condition
  on rounding the prize differs from stake times rate divided by 100, as the example
  after the next theorem shows.
\<close>

theorem prize_is_rounded_stake_times_rate:
  assumes "status d = ''FINISHED''" and "winningNumbers d = Some wn"
  shows "map (\<lambda>w. (wBet w, prizeWon w)) (winners (winnersData W betsByDraw clients (Some d)))
           = map (\<lambda>b. (b, dmul (stake b) (ddiv (resolvedRate (clientMapOf clients) b) 100)))
               (filter (\<lambda>b. W b wn \<and> resolvedRate (clientMapOf clients) b > 0)
                  (case betsByDraw (drawId d) of None \<Rightarrow> [] | Some bs \<Rightarrow> bs))
       \<and> (\<forall>w \<in> set (winners (winnersData W betsByDraw clients (Some d))).
             clientMapOf clients (betClientId (wBet w)) = Some (wClient w))
       \<and> (\<forall>w \<in> set (winners (winnersData W betsByDraw clients (Some d))).
             isDouble (resolvedRate (clientMapOf clients) (wBet w) / 100)
             \<and> isDouble (stake (wBet w) * (resolvedRate (clientMapOf clients) (wBet w) / 100))
             \<longrightarrow> prizeWon w = stake (wBet w) * resolvedRate (clientMapOf clients) (wBet w) / 100)
       \<and> (\<forall>b. W b wn \<and> resolvedRate (clientMapOf clients) b \<le> 0 \<longrightarrow>
             b \<notin> set (map wBet (winners (winnersData W betsByDraw clients (Some d)))))
       \<and> totalPayout (winnersData W betsByDraw clients (Some d))
           = foldl dadd 0 (map prizeWon (winners (winnersData W betsByDraw clients (Some d))))"
proof -
  let ?cm = "clientMapOf clients"
  let ?bets = "case betsByDraw (drawId d) of None \<Rightarrow> [] | Some bs \<Rightarrow> bs"
  let ?paid = "filter (\<lambda>b. W b wn \<and> resolvedRate ?cm b > 0) ?bets"
  have w: "winners (winnersData W betsByDraw clients (Some d))
      = map (\<lambda>b. \<lparr>wBet = b, wClient = the (?cm (betClientId b)),
                   prizeWon = dmul (stake b) (ddiv (resolvedRate ?cm b) 100)\<rparr>) ?paid"
    by (simp add: winnersData_finished [OF assms])
  have a: "map (\<lambda>w. (wBet w, prizeWon w)) (winners (winnersData W betsByDraw clients (Some d)))
           = map (\<lambda>b. (b, dmul (stake b) (ddiv (resolvedRate ?cm b) 100))) ?paid"
    unfolding w by (simp add: comp_def)
  have b: "\<forall>w \<in> set (winners (winnersData W betsByDraw clients (Some d))).
             ?cm (betClientId (wBet w)) = Some (wClient w)"
    unfolding w using resolvedRate_pos_client [of ?cm] by fastforce
  have e: "\<forall>w \<in> set (winners (winnersData W betsByDraw clients (Some d))).
             isDouble (resolvedRate ?cm (wBet w) / 100)
             \<and> isDouble (stake (wBet w) * (resolvedRate ?cm (wBet w) / 100))
             \<longrightarrow> prizeWon w = stake (wBet w) * resolvedRate ?cm (wBet w) / 100"
  proof (intro ballI impI)
    fix x
    assume x: "x \<in> set (winners (winnersData W betsByDraw clients (Some d)))"
      and h: "isDouble (resolvedRate ?cm (wBet x) / 100)
             \<and> isDouble (stake (wBet x) * (resolvedRate ?cm (wBet x) / 100))"
    from x obtain b where xb: "x = \<lparr>wBet = b, wClient = the (?cm (betClientId b)),
                   prizeWon = dmul (stake b) (ddiv (resolvedRate ?cm b) 100)\<rparr>"
      unfolding w by auto
    from h show "prizeWon x = stake (wBet x) * resolvedRate ?cm (wBet x) / 100"
      unfolding xb by (simp add: prize_exact)
  qed
  have c: "\<forall>b. W b wn \<and> resolvedRate ?cm b \<le> 0 \<longrightarrow>
             b \<notin> set (map wBet (winners (winnersData W betsByDraw clients (Some d))))"
    unfolding w by (auto simp: comp_def)
  from a b e c winnersData_totalPayout [of W betsByDraw clients "Some d"] show ?thesis
    by blast
qed

section \<open>Grouping the winners by client\<close>

lemma map_fst_bumpGroup [simp]: "map fst (bumpGroup key w gs) = map fst gs"
  by (induction gs) simp_all

lemma bumpGroup_absent: "key \<notin> fst ` set gs \<Longrightarrow> bumpGroup key w gs = gs"
  by (induction gs) auto

lemma bumpGroup_map:
  "distinct (map fst gs) \<Longrightarrow>
     bumpGroup key w gs
       = map (\<lambda>kg. if fst kg = key
                    then (fst kg, (snd kg)\<lparr>totalWon := dadd (totalWon (snd kg)) (prizeWon w),
                                           gBets := gBets (snd kg) @ [(wBet w, prizeWon w)]\<rparr>)
                    else kg) gs"
proof (induction gs)
  case Nil
  then show ?case by simp
next
  case (Cons kg gs)
  show ?case
  proof (cases "fst kg = key")
    case True
    then have "key \<notin> fst ` set gs" using Cons.prems by auto
    then have "map (\<lambda>kg. if fst kg = key
                    then (fst kg, (snd kg)\<lparr>totalWon := dadd (totalWon (snd kg)) (prizeWon w),
                                           gBets := gBets (snd kg) @ [(wBet w, prizeWon w)]\<rparr>)
                    else kg) gs = gs"
      by (intro map_idI) auto
    with True show ?thesis by simp
  next
    case False
    with Cons show ?thesis by simp
  qed
qed

lemma groupsOk_step:
  assumes "groupsOk ws gs"
  shows "groupsOk (ws @ [w]) (groupStep gs w)"
proof -
  let ?key = "cId (wClient w)"
  let ?upd = "\<lambda>kg. if fst kg = ?key
                    then (fst kg, (snd kg)\<lparr>totalWon := dadd (totalWon (snd kg)) (prizeWon w),
                                           gBets := gBets (snd kg) @ [(wBet w, prizeWon w)]\<rparr>)
                    else kg"
  from assms have d: "distinct (map fst gs)"
    and k: "set (map fst gs) = (\<lambda>w. cId (wClient w)) ` set ws"
    and g: "\<forall>kg \<in> set gs.
          cId (gClient (snd kg)) = fst kg
          \<and> gBets (snd kg)
              = map (\<lambda>w. (wBet w, prizeWon w)) (filter (\<lambda>w. cId (wClient w) = fst kg) ws)
          \<and> totalWon (snd kg)
              = foldl dadd 0 (map prizeWon (filter (\<lambda>w. cId (wClient w) = fst kg) ws))"
    by (simp_all add: groupsOk_def)
  show ?thesis
  proof (cases "?key \<in> fst ` set gs")
    case True
    then obtain y where m: "map_of gs ?key = Some y"
      by (cases "map_of gs ?key") (simp_all add: map_of_eq_None_iff)
    have r: "groupStep gs w = map ?upd gs"
      by (simp add: groupStep_def Let_def m bumpGroup_map [OF d])
    have f: "map fst (map ?upd gs) = map fst gs"
      by (induction gs) auto
    show ?thesis
      unfolding r groupsOk_def f
      using d k g True by (auto simp: image_iff)
  next
    case False
    then have m: "map_of gs ?key = None" by (simp add: map_of_eq_None_iff)
    have d1: "distinct (map fst (gs @ [(?key, \<lparr>gClient = wClient w, totalWon = 0, gBets = []\<rparr>)]))"
      using d False by auto
    have i: "map ?upd gs = gs"
      using False by (intro map_idI) (auto simp: image_iff)
    have r: "groupStep gs w
        = gs @ [(?key, \<lparr>gClient = wClient w, totalWon = dadd 0 (prizeWon w),
                          gBets = [(wBet w, prizeWon w)]\<rparr>)]"
      unfolding groupStep_def Let_def m by (simp add: bumpGroup_map [OF d1] i)
    have "?key \<notin> (\<lambda>w. cId (wClient w)) ` set ws"
      using False k by simp
    then have "\<forall>x \<in> set ws. cId (wClient x) \<noteq> ?key"
      by (metis (mono_tags, lifting) image_eqI)
    then have none: "filter (\<lambda>w'. cId (wClient w') = ?key) ws = []"
      by (simp add: filter_empty_conv)
    have others: "\<forall>kg \<in> set gs. fst kg \<noteq> ?key"
      using False by (metis (mono_tags, lifting) image_eqI)
    show ?thesis
      unfolding r groupsOk_def
      using d k g False none others by (auto simp: image_iff)
  qed
qed

lemma groupsOk_foldl: "groupsOk ws (foldl groupStep [] ws)"
proof (induction ws rule: rev_induct)
  case Nil
  then show ?case by (simp add: groupsOk_def)
next
  case (snoc w ws)
  then show ?case by (simp add: groupsOk_step)
qed

lemma sum_list_indicator:
  fixes c :: "'b::comm_monoid_add"
  shows "distinct ks \<Longrightarrow> a \<in> set ks \<Longrightarrow> sum_list (map (\<lambda>k. if a = k then c else 0) ks) = c"
proof (induction ks)
  case Nil
  then show ?case by simp
next
  case (Cons k ks)
  show ?case
  proof (cases "a = k")
    case True
    then have "a \<notin> set ks" using Cons.prems by auto
    then have "sum_list (map (\<lambda>k'. if a = k' then c else 0) ks) = 0"
      by (induction ks) auto
    with True show ?thesis by simp
  next
    case False
    with Cons show ?thesis by simp
  qed
qed

lemma partition_sum:
  fixes g :: "'a \<Rightarrow> 'b::comm_monoid_add"
  assumes "distinct ks" and "f ` set xs \<subseteq> set ks"
  shows "sum_list (map (\<lambda>k. sum_list (map g (filter (\<lambda>x. f x = k) xs))) ks)
           = sum_list (map g xs)"
  using assms(2)
proof (induction xs)
  case Nil
  then show ?case by simp
next
  case (Cons x xs)
  have mem: "f x \<in> set ks" using Cons.prems by auto
  have sub: "f ` set xs \<subseteq> set ks" using Cons.prems by auto
  have "sum_list (map (\<lambda>k. sum_list (map g (filter (\<lambda>y. f y = k) (x # xs)))) ks)
      = sum_list (map (\<lambda>k. (if f x = k then g x else 0)
                          + sum_list (map g (filter (\<lambda>y. f y = k) xs))) ks)"
    by (intro arg_cong [where f = sum_list] map_cong) auto
  also have "\<dots> = sum_list (map (\<lambda>k. if f x = k then g x else 0) ks)
                  + sum_list (map (\<lambda>k. sum_list (map g (filter (\<lambda>y. f y = k) xs))) ks)"
    by (rule sum_list_addf)
  also have "\<dots> = g x + sum_list (map g xs)"
    using sum_list_indicator [OF assms(1) mem, of "g x"] Cons.IH [OF sub] by simp
  finally show ?case by simp
qed

lemma winnersData_client:
  "w \<in> set (winners (winnersData W betsByDraw clients draw)) \<Longrightarrow>
     clientMapOf clients (betClientId (wBet w)) = Some (wClient w)"
proof (cases draw)
  case None
  assume "w \<in> set (winners (winnersData W betsByDraw clients draw))"
  with None show ?thesis by (simp add: winnersData_def)
next
  case (Some d)
  assume w: "w \<in> set (winners (winnersData W betsByDraw clients draw))"
  show ?thesis
  proof (cases "status d = ''FINISHED'' \<and> winningNumbers d \<noteq> None")
    case True
    then obtain wn where wn: "winningNumbers d = Some wn" by auto
    from True have st: "status d = ''FINISHED''" by simp
    from w Some show ?thesis
      unfolding Some winnersData_finished [OF st wn]
      using resolvedRate_pos_client [of "clientMapOf clients"] by fastforce
  next
    case False
    with w Some show ?thesis by (auto simp: winnersData_def split: option.splits)
  qed
qed

lemma grouped_keys:
  "map (\<lambda>g. cId (gClient g)) (map snd (foldl groupStep [] ws)) = map fst (foldl groupStep [] ws)"
  using groupsOk_foldl [of ws] by (simp add: groupsOk_def)

lemma grouped_distinct:
  "distinct (map (\<lambda>g. cId (gClient g)) (groupedWinners ws))"
proof -
  have "mset (map (\<lambda>g. cId (gClient g)) (groupedWinners ws))
          = mset (map (\<lambda>g. cId (gClient g)) (map snd (foldl groupStep [] ws)))"
    by (simp add: groupedWinners_def multiset.map_comp comp_def)
  moreover have "distinct (map (\<lambda>g. cId (gClient g)) (map snd (foldl groupStep [] ws)))"
    unfolding grouped_keys using groupsOk_foldl [of ws] by (simp add: groupsOk_def)
  ultimately show ?thesis by (metis mset_eq_imp_distinct_iff)
qed

lemma grouped_key_set:
  "(\<lambda>g. cId (gClient g)) ` set (groupedWinners ws) = (\<lambda>w. cId (wClient w)) ` set ws"
proof -
  have "(\<lambda>g. cId (gClient g)) ` set (groupedWinners ws)
          = set (map (\<lambda>g. cId (gClient g)) (map snd (foldl groupStep [] ws)))"
    by (simp add: groupedWinners_def image_image)
  also have "\<dots> = (\<lambda>w. cId (wClient w)) ` set ws"
    unfolding grouped_keys using groupsOk_foldl [of ws] by (simp add: groupsOk_def)
  finally show ?thesis .
qed

lemma grouped_bets:
  assumes "g \<in> set (groupedWinners ws)"
  shows "gBets g = map (\<lambda>w. (wBet w, prizeWon w))
                     (filter (\<lambda>w. cId (wClient w) = cId (gClient g)) ws)
       \<and> totalWon g = foldl dadd 0 (map prizeWon (filter (\<lambda>w. cId (wClient w) = cId (gClient g)) ws))"
proof -
  from assms obtain kg where kg: "kg \<in> set (foldl groupStep [] ws)" and g: "g = snd kg"
    by (auto simp: groupedWinners_def)
  from groupsOk_foldl [of ws] kg show ?thesis
    unfolding g groupsOk_def by auto
qed

lemma grouped_total_exact:
  assumes "\<forall>g \<in> set (groupedWinners ws). exactFold 0 (map snd (gBets g))"
  shows "sum_list (map totalWon (groupedWinners ws)) = sum_list (map prizeWon ws)"
proof -
  let ?G = "foldl groupStep [] ws"
  have ok: "groupsOk ws ?G" by (rule groupsOk_foldl)
  have ex: "totalWon g = sum_list (map prizeWon (filter (\<lambda>w. cId (wClient w) = cId (gClient g)) ws))"
    if g: "g \<in> set (groupedWinners ws)" for g
  proof -
    have "map snd (gBets g) = map prizeWon (filter (\<lambda>w. cId (wClient w) = cId (gClient g)) ws)"
      using grouped_bets [OF g] by (simp add: comp_def)
    with assms g have "exactFold 0 (map prizeWon (filter (\<lambda>w. cId (wClient w) = cId (gClient g)) ws))"
      by metis
    from foldl_dadd_exact [OF this] grouped_bets [OF g] show ?thesis by simp
  qed
  have "sum_list (map totalWon (groupedWinners ws))
      = sum_list (map (\<lambda>g. sum_list (map prizeWon
            (filter (\<lambda>w. cId (wClient w) = cId (gClient g)) ws))) (groupedWinners ws))"
    using ex by (intro arg_cong [where f = sum_list] map_cong) auto
  also have "\<dots> = sum_list (map (\<lambda>g. sum_list (map prizeWon
            (filter (\<lambda>w. cId (wClient w) = cId (gClient g)) ws))) (map snd ?G))"
    unfolding groupedWinners_def by (rule sum_list_map_sort_key)
  also have "\<dots> = sum_list (map (\<lambda>k. sum_list (map prizeWon
            (filter (\<lambda>w. cId (wClient w) = k) ws))) (map (\<lambda>g. cId (gClient g)) (map snd ?G)))"
    by (simp add: comp_def)
  also have "\<dots> = sum_list (map prizeWon ws)"
    unfolding grouped_keys using ok by (intro partition_sum) (auto simp: groupsOk_def)
  finally show ?thesis .
qed

lemma grouped_count:
  "sum_list (map (\<lambda>g. length (gBets g)) (groupedWinners ws)) = length ws"
proof -
  let ?G = "foldl groupStep [] ws"
  have ok: "groupsOk ws ?G" by (rule groupsOk_foldl)
  have "sum_list (map (\<lambda>g. length (gBets g)) (groupedWinners ws))
          = sum_list (map (\<lambda>g. length (gBets g)) (map snd ?G))"
    unfolding groupedWinners_def by (rule sum_list_map_sort_key)
  also have "\<dots> = sum_list (map (\<lambda>kg. sum_list (map (\<lambda>w. 1::nat)
                        (filter (\<lambda>w. cId (wClient w) = fst kg) ws))) ?G)"
    unfolding map_map using ok
    by (intro arg_cong [where f = sum_list] map_cong) (auto simp: groupsOk_def sum_list_triv)
  also have "\<dots> = sum_list (map (\<lambda>k. sum_list (map (\<lambda>w. 1::nat)
                        (filter (\<lambda>w. cId (wClient w) = k) ws))) (map fst ?G))"
    by (simp add: comp_def)
  also have "\<dots> = sum_list (map (\<lambda>w. 1::nat) ws)"
    using ok by (intro partition_sum) (auto simp: groupsOk_def)
  finally show ?thesis by (simp add: sum_list_triv)
qed

lemma grouped_length:
  "length (groupedWinners ws) = card ((\<lambda>w. cId (wClient w)) ` set ws)"
proof -
  have "length (groupedWinners ws) = length (map (\<lambda>g. cId (gClient g)) (groupedWinners ws))"
    by simp
  also have "\<dots> = card (set (map (\<lambda>g. cId (gClient g)) (groupedWinners ws)))"
    using grouped_distinct [of ws] by (simp only: distinct_card)
  also have "\<dots> = card ((\<lambda>w. cId (wClient w)) ` set ws)"
    using grouped_key_set [of ws] by simp
  finally show ?thesis .
qed

lemma grouped_membership:
  assumes w: "w \<in> set (winners (winnersData W betsByDraw clients draw))"
    and g: "g \<in> set (groupedWinners (winners (winnersData W betsByDraw clients draw)))"
  shows "((wBet w, prizeWon w) \<in> set (gBets g)) = (cId (gClient g) = cId (wClient w))"
proof
  let ?ws = "winners (winnersData W betsByDraw clients draw)"
  have gb: "gBets g = map (\<lambda>w. (wBet w, prizeWon w))
                        (filter (\<lambda>w. cId (wClient w) = cId (gClient g)) ?ws)"
    using grouped_bets [OF g] by blast
  {
    assume "(wBet w, prizeWon w) \<in> set (gBets g)"
    then obtain w' where w': "w' \<in> set ?ws" and b: "wBet w' = wBet w"
      and k: "cId (wClient w') = cId (gClient g)"
      unfolding gb by auto
    have "Some (wClient w') = Some (wClient w)"
      using winnersData_client [OF w'] winnersData_client [OF w] b by simp
    with k show "cId (gClient g) = cId (wClient w)" by simp
  }
  {
    assume "cId (gClient g) = cId (wClient w)"
    with w show "(wBet w, prizeWon w) \<in> set (gBets g)"
      unfolding gb by force
  }
qed

section \<open>Prizes of the two example draws\<close>

lemma dadd_int:
  "a \<in> \<int> \<Longrightarrow> b \<in> \<int> \<Longrightarrow> \<bar>a + b\<bar> < 9007199254740992 \<Longrightarrow> dadd a b = a + b"
  by (simp add: dadd_def roundDouble_int)

lemma ddiv_90_100: "ddiv 90 100 = 8106479329266893 / 9007199254740992"
  unfolding ddiv_def
  by (subst roundDouble_near [where j = 53 and m = 8106479329266893]) simp_all

lemma dmul_50_ninety: "dmul 50 (8106479329266893 / 9007199254740992) = 45"
  unfolding dmul_def
  by (subst roundDouble_near [where j = 47 and m = 6333186975989760]) simp_all

lemma ddiv_80_100: "ddiv 80 100 = 3602879701896397 / 4503599627370496"
  unfolding ddiv_def
  by (subst roundDouble_near [where j = 53 and m = 7205759403792794]) simp_all

lemma dmul_10_eighty: "dmul 10 (3602879701896397 / 4503599627370496) = 8"
  unfolding dmul_def
  by (subst roundDouble_near [where j = 49 and m = 4503599627370496]) simp_all

lemma ddiv_50_100: "ddiv 50 100 = 1 / 2"
  unfolding ddiv_def
  by (subst roundDouble_near [where j = 53 and m = 4503599627370496]) simp_all

lemma dmul_200_half: "dmul 200 (1 / 2) = 100"
  unfolding dmul_def by (simp add: roundDouble_int)

lemma ddiv_10_100: "ddiv 10 100 = tenth"
  unfolding ddiv_def using tenth_double by simp

lemma dmul_3_tenth: "dmul 3 tenth = 1351079888211149 / 4503599627370496"
  unfolding dmul_def tenth_def
  by (subst roundDouble_tie [where j = 54 and f = 5404319552844595]) simp_all

lemma ddiv_1_100: "ddiv 1 100 = hundredth"
  unfolding ddiv_def hundredth_def
  by (subst roundDouble_near [where j = 59 and m = 5764607523034235]) simp_all

lemma dmul_1_hundredth: "dmul 1 hundredth = hundredth"
  unfolding dmul_def hundredth_def
  by (subst roundDouble_near [where j = 59 and m = 5764607523034235]) simp_all

lemma dmul_7_hundredth: "dmul 7 hundredth = 1261007895663739 / 18014398509481984"
  unfolding dmul_def hundredth_def
  by (subst roundDouble_near [where j = 56 and m = 5044031582654956]) simp_all

lemma dadd_0_hundredth: "dadd 0 hundredth = hundredth"
  unfolding dadd_def hundredth_def
  by (subst roundDouble_near [where j = 59 and m = 5764607523034235]) simp_all

lemma dadd_hundredth_hundredth: "dadd hundredth hundredth = 5764607523034235 / 288230376151711744"
  unfolding dadd_def hundredth_def
  by (subst roundDouble_near [where j = 58 and m = 5764607523034235]) simp_all

lemma dadd_fiftieth_seven:
  "dadd (5764607523034235 / 288230376151711744) (1261007895663739 / 18014398509481984)
     = 6485183463413515 / 72057594037927936"
  unfolding dadd_def
  by (subst roundDouble_near [where j = 56 and m = 6485183463413515]) simp_all

lemma dadd_hundredth_seven:
  "dadd hundredth (1261007895663739 / 18014398509481984) = 5764607523034235 / 72057594037927936"
  unfolding dadd_def hundredth_def
  by (subst roundDouble_near [where j = 56 and m = 5764607523034235]) simp_all

lemma dadd_0_eight:
  "dadd 0 (5764607523034235 / 72057594037927936) = 5764607523034235 / 72057594037927936"
  unfolding dadd_def
  by (subst roundDouble_near [where j = 56 and m = 5764607523034235]) simp_all

lemma dadd_eight_hundredth:
  "dadd (5764607523034235 / 72057594037927936) hundredth = 3242591731706757 / 36028797018963968"
  unfolding dadd_def hundredth_def
  by (subst roundDouble_near [where j = 56 and m = 6485183463413514]) simp_all

lemma scenario_paid:
  "filter (\<lambda>b. sampleWinner b [''34'', ''3-4'']
                 \<and> resolvedRate (clientMapOf scenarioClients) b > 0)
     (case scenarioBetsByDraw (drawId scenarioDraw) of None \<Rightarrow> [] | Some bs \<Rightarrow> bs)
   = [mkBet ''b2'' ''c1'' (OtherGame ''Single'') First ''34'' 50,
      mkBet ''b6'' ''c1'' Positional First ''3-4'' 10,
      mkBet ''b7'' ''c3'' (OtherGame ''Single'') Second ''34'' 200]"
  by (simp add: scenarioBetsByDraw_def scenarioDraw_def scenarioBets_def scenarioClients_def
      clientMapOf_def sampleWinner_def resolvedRate_def resolveRate_def ratesAnn_def ratesCy_def
      mkBet_def digitCount_def)

lemma scenario_prizes:
  "dmul (stake (mkBet ''b2'' ''c1'' (OtherGame ''Single'') First ''34'' 50))
     (ddiv (resolvedRate (clientMapOf scenarioClients)
        (mkBet ''b2'' ''c1'' (OtherGame ''Single'') First ''34'' 50)) 100) = 45"
  "dmul (stake (mkBet ''b6'' ''c1'' Positional First ''3-4'' 10))
     (ddiv (resolvedRate (clientMapOf scenarioClients)
        (mkBet ''b6'' ''c1'' Positional First ''3-4'' 10)) 100) = 8"
  "dmul (stake (mkBet ''b7'' ''c3'' (OtherGame ''Single'') Second ''34'' 200))
     (ddiv (resolvedRate (clientMapOf scenarioClients)
        (mkBet ''b7'' ''c3'' (OtherGame ''Single'') Second ''34'' 200)) 100) = 100"
  by (simp_all add: scenarioClients_def clientMapOf_def resolvedRate_def resolveRate_def
      ratesAnn_def ratesCy_def mkBet_def digitCount_def
      ddiv_90_100 dmul_50_ninety ddiv_80_100 dmul_10_eighty ddiv_50_100 dmul_200_half)

lemma scenario_clients:
  "the (clientMapOf scenarioClients (betClientId (mkBet ''b2'' ''c1'' (OtherGame ''Single'') First ''34'' 50)))
     = \<lparr>cId = ''c1'', cClientId = ''A001'', username = ''ann'', role = Client,
        wallet = 355, prizeRates = Some ratesAnn\<rparr>"
  "the (clientMapOf scenarioClients (betClientId (mkBet ''b6'' ''c1'' Positional First ''3-4'' 10)))
     = \<lparr>cId = ''c1'', cClientId = ''A001'', username = ''ann'', role = Client,
        wallet = 355, prizeRates = Some ratesAnn\<rparr>"
  "the (clientMapOf scenarioClients (betClientId (mkBet ''b7'' ''c3'' (OtherGame ''Single'') Second ''34'' 200)))
     = \<lparr>cId = ''c3'', cClientId = ''A003'', username = ''cy'', role = Client,
        wallet = 0, prizeRates = Some ratesCy\<rparr>"
  by (simp_all add: scenarioClients_def clientMapOf_def mkBet_def)

lemma scenario_winnersData:
  "winnersData sampleWinner scenarioBetsByDraw scenarioClients (Some scenarioDraw) =
      \<lparr>winners =
         [\<lparr>wBet = mkBet ''b2'' ''c1'' (OtherGame ''Single'') First ''34'' 50,
           wClient = \<lparr>cId = ''c1'', cClientId = ''A001'', username = ''ann'', role = Client,
                      wallet = 355, prizeRates = Some ratesAnn\<rparr>, prizeWon = 45\<rparr>,
          \<lparr>wBet = mkBet ''b6'' ''c1'' Positional First ''3-4'' 10,
           wClient = \<lparr>cId = ''c1'', cClientId = ''A001'', username = ''ann'', role = Client,
                      wallet = 355, prizeRates = Some ratesAnn\<rparr>, prizeWon = 8\<rparr>,
          \<lparr>wBet = mkBet ''b7'' ''c3'' (OtherGame ''Single'') Second ''34'' 200,
           wClient = \<lparr>cId = ''c3'', cClientId = ''A003'', username = ''cy'', role = Client,
                      wallet = 0, prizeRates = Some ratesCy\<rparr>, prizeWon = 100\<rparr>],
       totalPayout = 153\<rparr>"
proof -
  have h1: "status scenarioDraw = ''FINISHED''" by (simp add: scenarioDraw_def)
  have h2: "winningNumbers scenarioDraw = Some [''34'', ''3-4'']" by (simp add: scenarioDraw_def)
  show ?thesis
    unfolding winnersData_finished [OF h1 h2] scenario_paid list.map foldl.simps
      scenario_prizes scenario_clients
    by (simp add: dadd_int)
qed

lemma tenPercent_winnersData:
  "winnersData sampleWinner tenPercentBets roundingClients (Some scenarioDraw) =
      \<lparr>winners =
         [\<lparr>wBet = mkBet ''x0'' ''c4'' (OtherGame ''Single'') First ''34'' 3,
           wClient = \<lparr>cId = ''c4'', cClientId = ''A004'', username = ''dee'', role = Client,
                      wallet = 0, prizeRates = Some ratesTen\<rparr>,
           prizeWon = 1351079888211149 / 4503599627370496\<rparr>],
       totalPayout = 1351079888211149 / 4503599627370496\<rparr>"
proof -
  have h1: "status scenarioDraw = ''FINISHED''" by (simp add: scenarioDraw_def)
  have h2: "winningNumbers scenarioDraw = Some [''34'', ''3-4'']" by (simp add: scenarioDraw_def)
  have paid: "filter (\<lambda>b. sampleWinner b [''34'', ''3-4'']
                 \<and> resolvedRate (clientMapOf roundingClients) b > 0)
     (case tenPercentBets (drawId scenarioDraw) of None \<Rightarrow> [] | Some bs \<Rightarrow> bs)
     = [mkBet ''x0'' ''c4'' (OtherGame ''Single'') First ''34'' 3]"
    by (simp add: tenPercentBets_def scenarioDraw_def roundingClients_def clientMapOf_def
        sampleWinner_def resolvedRate_def resolveRate_def ratesTen_def ratesOne_def mkBet_def)
  have prize: "dmul (stake (mkBet ''x0'' ''c4'' (OtherGame ''Single'') First ''34'' 3))
     (ddiv (resolvedRate (clientMapOf roundingClients)
        (mkBet ''x0'' ''c4'' (OtherGame ''Single'') First ''34'' 3)) 100)
       = 1351079888211149 / 4503599627370496"
    by (simp add: roundingClients_def clientMapOf_def resolvedRate_def resolveRate_def
        ratesTen_def ratesOne_def mkBet_def ddiv_10_100 dmul_3_tenth)
  have cl: "the (clientMapOf roundingClients
        (betClientId (mkBet ''x0'' ''c4'' (OtherGame ''Single'') First ''34'' 3)))
     = \<lparr>cId = ''c4'', cClientId = ''A004'', username = ''dee'', role = Client,
                      wallet = 0, prizeRates = Some ratesTen\<rparr>"
    by (simp add: roundingClients_def clientMapOf_def mkBet_def)
  show ?thesis
    unfolding winnersData_finished [OF h1 h2] paid list.map foldl.simps prize cl
    by (simp add: dadd_0_sum)
qed

lemma onePercent_winnersData:
  "winnersData sampleWinner onePercentBets roundingClients (Some scenarioDraw) =
      \<lparr>winners =
         [\<lparr>wBet = mkBet ''x1'' ''c1'' (OtherGame ''Single'') First ''34'' 1,
           wClient = \<lparr>cId = ''c1'', cClientId = ''A001'', username = ''ann'', role = Client,
                      wallet = 0, prizeRates = Some ratesOne\<rparr>, prizeWon = hundredth\<rparr>,
          \<lparr>wBet = mkBet ''x2'' ''c2'' (OtherGame ''Single'') First ''34'' 1,
           wClient = \<lparr>cId = ''c2'', cClientId = ''A002'', username = ''bob'', role = Client,
                      wallet = 0, prizeRates = Some ratesOne\<rparr>, prizeWon = hundredth\<rparr>,
          \<lparr>wBet = mkBet ''x3'' ''c1'' (OtherGame ''Single'') First ''34'' 7,
           wClient = \<lparr>cId = ''c1'', cClientId = ''A001'', username = ''ann'', role = Client,
                      wallet = 0, prizeRates = Some ratesOne\<rparr>,
           prizeWon = 1261007895663739 / 18014398509481984\<rparr>],
       totalPayout = 6485183463413515 / 72057594037927936\<rparr>"
proof -
  have h1: "status scenarioDraw = ''FINISHED''" by (simp add: scenarioDraw_def)
  have h2: "winningNumbers scenarioDraw = Some [''34'', ''3-4'']" by (simp add: scenarioDraw_def)
  have paid: "filter (\<lambda>b. sampleWinner b [''34'', ''3-4'']
                 \<and> resolvedRate (clientMapOf roundingClients) b > 0)
     (case onePercentBets (drawId scenarioDraw) of None \<Rightarrow> [] | Some bs \<Rightarrow> bs)
     = [mkBet ''x1'' ''c1'' (OtherGame ''Single'') First ''34'' 1,
        mkBet ''x2'' ''c2'' (OtherGame ''Single'') First ''34'' 1,
        mkBet ''x3'' ''c1'' (OtherGame ''Single'') First ''34'' 7]"
    by (simp add: onePercentBets_def scenarioDraw_def roundingClients_def clientMapOf_def
        sampleWinner_def resolvedRate_def resolveRate_def ratesTen_def ratesOne_def mkBet_def)
  have prize:
    "dmul (stake (mkBet ''x1'' ''c1'' (OtherGame ''Single'') First ''34'' 1))
       (ddiv (resolvedRate (clientMapOf roundingClients)
          (mkBet ''x1'' ''c1'' (OtherGame ''Single'') First ''34'' 1)) 100) = hundredth"
    "dmul (stake (mkBet ''x2'' ''c2'' (OtherGame ''Single'') First ''34'' 1))
       (ddiv (resolvedRate (clientMapOf roundingClients)
          (mkBet ''x2'' ''c2'' (OtherGame ''Single'') First ''34'' 1)) 100) = hundredth"
    "dmul (stake (mkBet ''x3'' ''c1'' (OtherGame ''Single'') First ''34'' 7))
       (ddiv (resolvedRate (clientMapOf roundingClients)
          (mkBet ''x3'' ''c1'' (OtherGame ''Single'') First ''34'' 7)) 100)
       = 1261007895663739 / 18014398509481984"
    by (simp_all add: roundingClients_def clientMapOf_def resolvedRate_def resolveRate_def
        ratesTen_def ratesOne_def mkBet_def ddiv_1_100 dmul_1_hundredth dmul_7_hundredth)
  have cl:
    "the (clientMapOf roundingClients
        (betClientId (mkBet ''x1'' ''c1'' (OtherGame ''Single'') First ''34'' 1)))
     = \<lparr>cId = ''c1'', cClientId = ''A001'', username = ''ann'', role = Client,
                      wallet = 0, prizeRates = Some ratesOne\<rparr>"
    "the (clientMapOf roundingClients
        (betClientId (mkBet ''x2'' ''c2'' (OtherGame ''Single'') First ''34'' 1)))
     = \<lparr>cId = ''c2'', cClientId = ''A002'', username = ''bob'', role = Client,
                      wallet = 0, prizeRates = Some ratesOne\<rparr>"
    "the (clientMapOf roundingClients
        (betClientId (mkBet ''x3'' ''c1'' (OtherGame ''Single'') First ''34'' 7)))
     = \<lparr>cId = ''c1'', cClientId = ''A001'', username = ''ann'', role = Client,
                      wallet = 0, prizeRates = Some ratesOne\<rparr>"
    by (simp_all add: roundingClients_def clientMapOf_def mkBet_def)
  show ?thesis
    unfolding winnersData_finished [OF h1 h2] paid list.map foldl.simps prize cl
      dadd_0_hundredth dadd_hundredth_hundredth dadd_fiftieth_seven
    by simp
qed

text \<open>
  In the worked draw the prizes are 45, 8 and 100 and the payout is 153; the winning bet
  of the third client on (Single, First) has the rate 0 and is not among the winners.
\<close>

theorem prize_is_rounded_stake_times_rate_witness:
  "status scenarioDraw = ''FINISHED''
   \<and> winningNumbers scenarioDraw = Some [''34'', ''3-4'']
   \<and> map (\<lambda>bp. (betId (fst bp), snd bp))
         (map (\<lambda>w. (wBet w, prizeWon w))
            (winners (winnersData sampleWinner scenarioBetsByDraw scenarioClients (Some scenarioDraw))))
       = [(''b2'', 45), (''b6'', 8), (''b7'', 100)]
   \<and> totalPayout (winnersData sampleWinner scenarioBetsByDraw scenarioClients (Some scenarioDraw))
       = 153
   \<and> sampleWinner (mkBet ''b5'' ''c3'' (OtherGame ''Single'') First ''34'' 30) [''34'', ''3-4'']
   \<and> resolvedRate (clientMapOf scenarioClients)
         (mkBet ''b5'' ''c3'' (OtherGame ''Single'') First ''34'' 30) = 0
   \<and> mkBet ''b5'' ''c3'' (OtherGame ''Single'') First ''34'' 30
       \<notin> set (map wBet
           (winners (winnersData sampleWinner scenarioBetsByDraw scenarioClients (Some scenarioDraw))))"
proof -
  let ?b5 = "mkBet ''b5'' ''c3'' (OtherGame ''Single'') First ''34'' 30"
  let ?wd = "winnersData sampleWinner scenarioBetsByDraw scenarioClients (Some scenarioDraw)"
  have h1: "status scenarioDraw = ''FINISHED''" by (simp add: scenarioDraw_def)
  have h2: "winningNumbers scenarioDraw = Some [''34'', ''3-4'']" by (simp add: scenarioDraw_def)
  note T = prize_is_rounded_stake_times_rate [OF h1 h2, of sampleWinner scenarioBetsByDraw
      scenarioClients]
  from T have "map (\<lambda>w. (wBet w, prizeWon w)) (winners ?wd)
      = map (\<lambda>b. (b, dmul (stake b) (ddiv (resolvedRate (clientMapOf scenarioClients) b) 100)))
          (filter (\<lambda>b. sampleWinner b [''34'', ''3-4'']
                            \<and> resolvedRate (clientMapOf scenarioClients) b > 0)
             (case scenarioBetsByDraw (drawId scenarioDraw) of None \<Rightarrow> [] | Some bs \<Rightarrow> bs))"
    by blast
  then have full: "map (\<lambda>w. (wBet w, prizeWon w)) (winners ?wd)
      = [(mkBet ''b2'' ''c1'' (OtherGame ''Single'') First ''34'' 50, 45),
         (mkBet ''b6'' ''c1'' Positional First ''3-4'' 10, 8),
         (mkBet ''b7'' ''c3'' (OtherGame ''Single'') Second ''34'' 200, 100)]"
    unfolding scenario_paid list.map scenario_prizes .
  then have a: "map (\<lambda>bp. (betId (fst bp), snd bp)) (map (\<lambda>w. (wBet w, prizeWon w)) (winners ?wd))
       = [(''b2'', 45), (''b6'', 8), (''b7'', 100)]"
    by (simp add: mkBet_def)
  have pw: "map prizeWon (winners ?wd) = [45, 8, 100]"
    using arg_cong [OF full, of "map snd"] by (simp add: comp_def)
  from T have "totalPayout ?wd = foldl dadd 0 (map prizeWon (winners ?wd))" by blast
  then have p: "totalPayout ?wd = 153" unfolding pw by (simp add: dadd_int)
  have w5: "sampleWinner ?b5 [''34'', ''3-4'']" by (simp add: sampleWinner_def mkBet_def)
  have r5: "resolvedRate (clientMapOf scenarioClients) ?b5 = 0"
    by (simp add: scenarioClients_def clientMapOf_def resolvedRate_def resolveRate_def
        ratesCy_def mkBet_def)
  from T have "sampleWinner ?b5 [''34'', ''3-4'']
        \<and> resolvedRate (clientMapOf scenarioClients) ?b5 \<le> 0 \<longrightarrow>
      ?b5 \<notin> set (map wBet (winners ?wd))"
    by blast
  with w5 r5 have c: "?b5 \<notin> set (map wBet (winners ?wd))"
    by simp
  from h1 h2 a p w5 r5 c show ?thesis by blast
qed

text \<open>
  A stake of 3 at 10 percent: the program's prize is \<open>3 * 0.1\<close>, which is
  0.30000000000000004. It is neither the number 3 * 10 / 100 nor the double nearest to
  it.
\<close>

theorem prize_is_stake_times_rate_counterexample:
  "sampleWinner (mkBet ''x0'' ''c4'' (OtherGame ''Single'') First ''34'' 3) [''34'', ''3-4'']
   \<and> resolvedRate (clientMapOf roundingClients)
        (mkBet ''x0'' ''c4'' (OtherGame ''Single'') First ''34'' 3) = 10
   \<and> map (\<lambda>w. (betId (wBet w), stake (wBet w), prizeWon w))
        (winners (winnersData sampleWinner tenPercentBets roundingClients (Some scenarioDraw)))
       = [(''x0'', 3, 1351079888211149 / 4503599627370496)]
   \<and> (1351079888211149 / 4503599627370496 :: rat) \<noteq> 3 * 10 / 100
   \<and> roundDouble (3 * 10 / 100) = 5404319552844595 / 18014398509481984
   \<and> (1351079888211149 / 4503599627370496 :: rat) \<noteq> 5404319552844595 / 18014398509481984"
proof -
  have a: "sampleWinner (mkBet ''x0'' ''c4'' (OtherGame ''Single'') First ''34'' 3) [''34'', ''3-4'']"
    by (simp add: sampleWinner_def mkBet_def)
  have b: "resolvedRate (clientMapOf roundingClients)
        (mkBet ''x0'' ''c4'' (OtherGame ''Single'') First ''34'' 3) = 10"
    by (simp add: roundingClients_def clientMapOf_def resolvedRate_def resolveRate_def
        ratesTen_def ratesOne_def mkBet_def)
  have c: "map (\<lambda>w. (betId (wBet w), stake (wBet w), prizeWon w))
        (winners (winnersData sampleWinner tenPercentBets roundingClients (Some scenarioDraw)))
       = [(''x0'', 3, 1351079888211149 / 4503599627370496)]"
    unfolding tenPercent_winnersData by (simp add: mkBet_def)
  have d: "(1351079888211149 / 4503599627370496 :: rat) \<noteq> 3 * 10 / 100" by simp
  have e: "roundDouble (3 * 10 / 100) = 5404319552844595 / 18014398509481984"
    by (subst roundDouble_near [where j = 54 and m = 5404319552844595]) simp_all
  have f: "(1351079888211149 / 4503599627370496 :: rat) \<noteq> 5404319552844595 / 18014398509481984"
    by simp
  from a b c d e f show ?thesis by blast
qed

text \<open>
  C8. The winners report groups the winning bets by client. The groups have distinct
  client ids, which are the client ids of the winners; each group holds exactly the
  winners of its client, in order, so a winning bet is in a group if and only if the
  group is its client's; each group's totalWon is the sum of the prizes of its bets,
  added in that order in doubles; the total payout shown is the sum of the prizes of all
  winners, added in the order of the bets in doubles; when none of these additions
  rounds, each totalWon is the exact sum of the prizes of the group's bets and the total
  payout shown is the sum of the groups' totalWon; the winning-bet count shown is the
  number of winners, which is the number of bets over all groups; and the unique-winner
  count shown is the number of groups, the number of distinct winning clients. Without
  the condition on rounding the total payout is not the sum of the groups' totalWon, as
  the example after the next theorem shows.
\<close>

theorem winners_report_groups_by_client_rounded:
  "distinct (map (\<lambda>g. cId (gClient g)) (reportGroups (winnersReport W betsByDraw clients draw)))
   \<and> (\<lambda>g. cId (gClient g)) ` set (reportGroups (winnersReport W betsByDraw clients draw))
       = (\<lambda>w. cId (wClient w)) ` set (winners (winnersData W betsByDraw clients draw))
   \<and> (\<forall>g \<in> set (reportGroups (winnersReport W betsByDraw clients draw)).
         gBets g = map (\<lambda>w. (wBet w, prizeWon w))
                     (filter (\<lambda>w. cId (wClient w) = cId (gClient g))
                        (winners (winnersData W betsByDraw clients draw)))
         \<and> totalWon g = foldl dadd 0 (map snd (gBets g)))
   \<and> (\<forall>w \<in> set (winners (winnersData W betsByDraw clients draw)).
       \<forall>g \<in> set (reportGroups (winnersReport W betsByDraw clients draw)).
         ((wBet w, prizeWon w) \<in> set (gBets g)) = (cId (gClient g) = cId (wClient w)))
   \<and> shownTotalPayout (winnersReport W betsByDraw clients draw)
       = foldl dadd 0 (map prizeWon (winners (winnersData W betsByDraw clients draw)))
   \<and> (exactFold 0 (map prizeWon (winners (winnersData W betsByDraw clients draw)))
        \<and> (\<forall>g \<in> set (reportGroups (winnersReport W betsByDraw clients draw)).
              exactFold 0 (map snd (gBets g)))
      \<longrightarrow> (\<forall>g \<in> set (reportGroups (winnersReport W betsByDraw clients draw)).
              totalWon g = sum_list (map snd (gBets g)))
          \<and> shownTotalPayout (winnersReport W betsByDraw clients draw)
              = sum_list (map totalWon (reportGroups (winnersReport W betsByDraw clients draw))))
   \<and> shownWinningBets (winnersReport W betsByDraw clients draw)
       = length (winners (winnersData W betsByDraw clients draw))
   \<and> shownWinningBets (winnersReport W betsByDraw clients draw)
       = sum_list (map (\<lambda>g. length (gBets g))
           (reportGroups (winnersReport W betsByDraw clients draw)))
   \<and> shownUniqueWinners (winnersReport W betsByDraw clients draw)
       = length (reportGroups (winnersReport W betsByDraw clients draw))
   \<and> shownUniqueWinners (winnersReport W betsByDraw clients draw)
       = card ((\<lambda>w. cId (wClient w)) ` set (winners (winnersData W betsByDraw clients draw)))"
proof -
  let ?wd = "winnersData W betsByDraw clients draw"
  let ?ws = "winners ?wd"
  let ?R = "winnersReport W betsByDraw clients draw"
  have rg: "reportGroups ?R = groupedWinners ?ws"
    and tp: "shownTotalPayout ?R = totalPayout ?wd"
    and wb: "shownWinningBets ?R = length ?ws"
    and uw: "shownUniqueWinners ?R = length (groupedWinners ?ws)"
    by (simp_all add: winnersReport_def Let_def)
  have c1: "distinct (map (\<lambda>g. cId (gClient g)) (groupedWinners ?ws))"
    by (rule grouped_distinct)
  have c2: "(\<lambda>g. cId (gClient g)) ` set (groupedWinners ?ws) = (\<lambda>w. cId (wClient w)) ` set ?ws"
    by (rule grouped_key_set)
  have c3: "\<forall>g \<in> set (groupedWinners ?ws).
         gBets g = map (\<lambda>w. (wBet w, prizeWon w))
                     (filter (\<lambda>w. cId (wClient w) = cId (gClient g)) ?ws)
         \<and> totalWon g = foldl dadd 0 (map snd (gBets g))"
  proof
    fix g assume g: "g \<in> set (groupedWinners ?ws)"
    from grouped_bets [OF g]
    show "gBets g = map (\<lambda>w. (wBet w, prizeWon w))
                     (filter (\<lambda>w. cId (wClient w) = cId (gClient g)) ?ws)
         \<and> totalWon g = foldl dadd 0 (map snd (gBets g))"
      by (simp add: comp_def)
  qed
  have c4: "\<forall>w \<in> set ?ws. \<forall>g \<in> set (groupedWinners ?ws).
         ((wBet w, prizeWon w) \<in> set (gBets g)) = (cId (gClient g) = cId (wClient w))"
    using grouped_membership by blast
  have c5: "totalPayout ?wd = foldl dadd 0 (map prizeWon ?ws)"
    by (rule winnersData_totalPayout)
  have c5x: "exactFold 0 (map prizeWon ?ws)
        \<and> (\<forall>g \<in> set (groupedWinners ?ws). exactFold 0 (map snd (gBets g)))
      \<longrightarrow> (\<forall>g \<in> set (groupedWinners ?ws). totalWon g = sum_list (map snd (gBets g)))
          \<and> totalPayout ?wd = sum_list (map totalWon (groupedWinners ?ws))"
  proof (intro impI conjI ballI)
    assume h: "exactFold 0 (map prizeWon ?ws)
        \<and> (\<forall>g \<in> set (groupedWinners ?ws). exactFold 0 (map snd (gBets g)))"
    then have e1: "exactFold 0 (map prizeWon ?ws)"
      and e2: "\<forall>g \<in> set (groupedWinners ?ws). exactFold 0 (map snd (gBets g))"
      by blast+
    from foldl_dadd_exact [OF e1] c5 have "totalPayout ?wd = sum_list (map prizeWon ?ws)"
      by simp
    with grouped_total_exact [OF e2]
    show "totalPayout ?wd = sum_list (map totalWon (groupedWinners ?ws))" by simp
    fix g assume g: "g \<in> set (groupedWinners ?ws)"
    with e2 have "exactFold 0 (map snd (gBets g))" by blast
    from foldl_dadd_exact [OF this] c3 g
    show "totalWon g = sum_list (map snd (gBets g))" by simp
  qed
  have c6: "length ?ws = sum_list (map (\<lambda>g. length (gBets g)) (groupedWinners ?ws))"
    by (simp only: grouped_count)
  have c7: "length (groupedWinners ?ws) = card ((\<lambda>w. cId (wClient w)) ` set ?ws)"
    by (rule grouped_length)
  show ?thesis
    unfolding rg tp wb uw using c1 c2 c3 c4 c5 c5x c6 c7 by (intro conjI) simp_all
qed

text \<open>
  In the worked draw the groups are the third client with 100 and the first with 53, the
  payout shown is 153, which is the sum of the two, for 3 winning bets of 2 winners.
\<close>

theorem winners_report_groups_by_client_rounded_witness:
  "map (\<lambda>g. (cId (gClient g), totalWon g, map (\<lambda>bp. (betId (fst bp), snd bp)) (gBets g)))
     (reportGroups (winnersReport sampleWinner scenarioBetsByDraw scenarioClients (Some scenarioDraw)))
     = [(''c3'', 100, [(''b7'', 100)]), (''c1'', 53, [(''b2'', 45), (''b6'', 8)])]
   \<and> shownTotalPayout (winnersReport sampleWinner scenarioBetsByDraw scenarioClients (Some scenarioDraw))
       = 153
   \<and> sum_list (map totalWon
        (reportGroups (winnersReport sampleWinner scenarioBetsByDraw scenarioClients (Some scenarioDraw))))
       = 153
   \<and> shownWinningBets (winnersReport sampleWinner scenarioBetsByDraw scenarioClients (Some scenarioDraw))
       = 3
   \<and> shownUniqueWinners (winnersReport sampleWinner scenarioBetsByDraw scenarioClients (Some scenarioDraw))
       = 2
   \<and> card ((\<lambda>w. cId (wClient w)) ` set (winners
        (winnersData sampleWinner scenarioBetsByDraw scenarioClients (Some scenarioDraw)))) = 2"
proof -
  let ?R = "winnersReport sampleWinner scenarioBetsByDraw scenarioClients (Some scenarioDraw)"
  let ?wd = "winnersData sampleWinner scenarioBetsByDraw scenarioClients (Some scenarioDraw)"
  note T = winners_report_groups_by_client_rounded [of sampleWinner scenarioBetsByDraw
      scenarioClients "Some scenarioDraw"]
  have g: "map (\<lambda>g. (cId (gClient g), totalWon g, map (\<lambda>bp. (betId (fst bp), snd bp)) (gBets g)))
             (reportGroups ?R)
         = [(''c3'', 100, [(''b7'', 100)]), (''c1'', 53, [(''b2'', 45), (''b6'', 8)])]"
    unfolding winnersReport_def Let_def scenario_winnersData
    by (simp add: groupedWinners_def groupStep_def mkBet_def Let_def dadd_int)
  have gb: "map (\<lambda>g. map snd (gBets g)) (reportGroups ?R) = [[100], [45, 8]]"
    using arg_cong [OF g, of "map (\<lambda>t. map snd (snd (snd t)))"] by (simp add: comp_def)
  have n: "shownWinningBets ?R = 3"
    unfolding winnersReport_def Let_def scenario_winnersData by simp
  have len: "length (reportGroups ?R) = 2"
    using arg_cong [OF g, of length] by simp
  have e1: "exactFold 0 (map prizeWon (winners ?wd))"
    unfolding scenario_winnersData by (simp add: isDouble_int)
  have "\<forall>l \<in> set (map (\<lambda>g. map snd (gBets g)) (reportGroups ?R)). exactFold 0 l"
    unfolding gb by (simp add: isDouble_int)
  then have e2: "\<forall>g \<in> set (reportGroups ?R). exactFold 0 (map snd (gBets g))"
    by simp
  from T e1 e2 have s0: "shownTotalPayout ?R = sum_list (map totalWon (reportGroups ?R))"
    by blast
  from T have "shownTotalPayout ?R = foldl dadd 0 (map prizeWon (winners ?wd))" by blast
  then have p: "shownTotalPayout ?R = 153"
    unfolding scenario_winnersData by (simp add: dadd_int)
  from s0 p have s: "sum_list (map totalWon (reportGroups ?R)) = 153" by simp
  from T have "shownUniqueWinners ?R = length (reportGroups ?R)" by blast
  with len have u: "shownUniqueWinners ?R = 2" by simp
  from T have "shownUniqueWinners ?R = card ((\<lambda>w. cId (wClient w)) ` set (winners ?wd))"
    by blast
  with u have c: "card ((\<lambda>w. cId (wClient w)) ` set (winners ?wd)) = 2" by simp
  from g p s n u c show ?thesis by blast
qed

text \<open>
  Prizes of 0.01 for a first client, 0.01 for a second and 0.07 for the first again: the
  payout shown is 0.09000000000000001, the groups have 0.08 and 0.01, and their sum is
  not the payout shown, neither as an exact sum nor added in doubles.
\<close>

theorem winners_report_groups_by_client_counterexample:
  "roundDouble (1 / 100) = hundredth
   \<and> map (\<lambda>w. (betId (wBet w), cId (wClient w), prizeWon w))
     (winners (winnersData sampleWinner onePercentBets roundingClients (Some scenarioDraw)))
     = [(''x1'', ''c1'', hundredth), (''x2'', ''c2'', hundredth),
        (''x3'', ''c1'', 1261007895663739 / 18014398509481984)]
   \<and> map (\<lambda>g. (cId (gClient g), totalWon g, map (\<lambda>bp. betId (fst bp)) (gBets g)))
       (reportGroups (winnersReport sampleWinner onePercentBets roundingClients (Some scenarioDraw)))
     = [(''c1'', 5764607523034235 / 72057594037927936, [''x1'', ''x3'']),
        (''c2'', hundredth, [''x2''])]
   \<and> shownTotalPayout (winnersReport sampleWinner onePercentBets roundingClients (Some scenarioDraw))
       = 6485183463413515 / 72057594037927936
   \<and> sum_list (map totalWon
        (reportGroups (winnersReport sampleWinner onePercentBets roundingClients (Some scenarioDraw))))
       = 51881467707308115 / 576460752303423488
   \<and> foldl dadd 0 (map totalWon
        (reportGroups (winnersReport sampleWinner onePercentBets roundingClients (Some scenarioDraw))))
       = 3242591731706757 / 36028797018963968
   \<and> shownTotalPayout (winnersReport sampleWinner onePercentBets roundingClients (Some scenarioDraw))
       \<noteq> sum_list (map totalWon
        (reportGroups (winnersReport sampleWinner onePercentBets roundingClients (Some scenarioDraw))))
   \<and> shownTotalPayout (winnersReport sampleWinner onePercentBets roundingClients (Some scenarioDraw))
       \<noteq> foldl dadd 0 (map totalWon
        (reportGroups (winnersReport sampleWinner onePercentBets roundingClients (Some scenarioDraw))))"
proof -
  let ?R = "winnersReport sampleWinner onePercentBets roundingClients (Some scenarioDraw)"
  have srt: "sort_key (\<lambda>g. - totalWon g)
       [\<lparr>gClient = \<lparr>cId = ''c1'', cClientId = ''A001'', username = ''ann'', role = Client,
                      wallet = 0, prizeRates = Some ratesOne\<rparr>,
          totalWon = 5764607523034235 / 72057594037927936,
          gBets = [(mkBet ''x1'' ''c1'' (OtherGame ''Single'') First ''34'' 1, hundredth),
                   (mkBet ''x3'' ''c1'' (OtherGame ''Single'') First ''34'' 7,
                    1261007895663739 / 18014398509481984)]\<rparr>,
        \<lparr>gClient = \<lparr>cId = ''c2'', cClientId = ''A002'', username = ''bob'', role = Client,
                      wallet = 0, prizeRates = Some ratesOne\<rparr>,
          totalWon = hundredth,
          gBets = [(mkBet ''x2'' ''c2'' (OtherGame ''Single'') First ''34'' 1, hundredth)]\<rparr>]
     = [\<lparr>gClient = \<lparr>cId = ''c1'', cClientId = ''A001'', username = ''ann'', role = Client,
                      wallet = 0, prizeRates = Some ratesOne\<rparr>,
          totalWon = 5764607523034235 / 72057594037927936,
          gBets = [(mkBet ''x1'' ''c1'' (OtherGame ''Single'') First ''34'' 1, hundredth),
                   (mkBet ''x3'' ''c1'' (OtherGame ''Single'') First ''34'' 7,
                    1261007895663739 / 18014398509481984)]\<rparr>,
        \<lparr>gClient = \<lparr>cId = ''c2'', cClientId = ''A002'', username = ''bob'', role = Client,
                      wallet = 0, prizeRates = Some ratesOne\<rparr>,
          totalWon = hundredth,
          gBets = [(mkBet ''x2'' ''c2'' (OtherGame ''Single'') First ''34'' 1, hundredth)]\<rparr>]"
    by (simp add: hundredth_def)
  have grp: "foldl groupStep []
       (winners (winnersData sampleWinner onePercentBets roundingClients (Some scenarioDraw)))
     = [(''c1'', \<lparr>gClient = \<lparr>cId = ''c1'', cClientId = ''A001'', username = ''ann'', role = Client,
                      wallet = 0, prizeRates = Some ratesOne\<rparr>,
          totalWon = 5764607523034235 / 72057594037927936,
          gBets = [(mkBet ''x1'' ''c1'' (OtherGame ''Single'') First ''34'' 1, hundredth),
                   (mkBet ''x3'' ''c1'' (OtherGame ''Single'') First ''34'' 7,
                    1261007895663739 / 18014398509481984)]\<rparr>),
        (''c2'', \<lparr>gClient = \<lparr>cId = ''c2'', cClientId = ''A002'', username = ''bob'', role = Client,
                      wallet = 0, prizeRates = Some ratesOne\<rparr>,
          totalWon = hundredth,
          gBets = [(mkBet ''x2'' ''c2'' (OtherGame ''Single'') First ''34'' 1, hundredth)]\<rparr>)]"
    unfolding onePercent_winnersData
    by (simp add: groupStep_def Let_def dadd_0_hundredth dadd_hundredth_seven)
  have w: "map (\<lambda>w. (betId (wBet w), cId (wClient w), prizeWon w))
     (winners (winnersData sampleWinner onePercentBets roundingClients (Some scenarioDraw)))
     = [(''x1'', ''c1'', hundredth), (''x2'', ''c2'', hundredth),
        (''x3'', ''c1'', 1261007895663739 / 18014398509481984)]"
    unfolding onePercent_winnersData by (simp add: mkBet_def)
  have rg: "reportGroups ?R
     = [\<lparr>gClient = \<lparr>cId = ''c1'', cClientId = ''A001'', username = ''ann'', role = Client,
                      wallet = 0, prizeRates = Some ratesOne\<rparr>,
          totalWon = 5764607523034235 / 72057594037927936,
          gBets = [(mkBet ''x1'' ''c1'' (OtherGame ''Single'') First ''34'' 1, hundredth),
                   (mkBet ''x3'' ''c1'' (OtherGame ''Single'') First ''34'' 7,
                    1261007895663739 / 18014398509481984)]\<rparr>,
        \<lparr>gClient = \<lparr>cId = ''c2'', cClientId = ''A002'', username = ''bob'', role = Client,
                      wallet = 0, prizeRates = Some ratesOne\<rparr>,
          totalWon = hundredth,
          gBets = [(mkBet ''x2'' ''c2'' (OtherGame ''Single'') First ''34'' 1, hundredth)]\<rparr>]"
    unfolding winnersReport_def Let_def groupedWinners_def grp list.map snd_conv srt
    by simp
  have g: "map (\<lambda>g. (cId (gClient g), totalWon g, map (\<lambda>bp. betId (fst bp)) (gBets g)))
       (reportGroups ?R)
     = [(''c1'', 5764607523034235 / 72057594037927936, [''x1'', ''x3'']),
        (''c2'', hundredth, [''x2''])]"
    unfolding rg by (simp add: mkBet_def)
  have p: "shownTotalPayout ?R = 6485183463413515 / 72057594037927936"
    unfolding winnersReport_def Let_def onePercent_winnersData by simp
  have s: "sum_list (map totalWon (reportGroups ?R)) = 51881467707308115 / 576460752303423488"
    unfolding rg by (simp add: hundredth_def)
  have d: "foldl dadd 0 (map totalWon (reportGroups ?R)) = 3242591731706757 / 36028797018963968"
    unfolding rg by (simp add: dadd_0_eight dadd_eight_hundredth)
  have n1: "shownTotalPayout ?R \<noteq> sum_list (map totalWon (reportGroups ?R))"
    unfolding p s by simp
  have n2: "shownTotalPayout ?R \<noteq> foldl dadd 0 (map totalWon (reportGroups ?R))"
    unfolding p d by simp
  have h: "roundDouble (1 / 100) = hundredth"
    using ddiv_1_100 by (simp add: ddiv_def)
  from h w g p s d n1 n2 show ?thesis by blast
qed

section \<open>Reversed transactions in every view\<close>



lemma originalTx_adminMovement_id [simp]: "originalTx (adminMovement cm tx) = tx"
  by (simp add: adminMovement_def Let_def)







end
